theory Spec2Isabelle
  imports Complex_Main
begin

section \<open>The browser driver and the service state\<close>

text \<open>
  The service of \<^verbatim>\<open>streaming-playwright-service.ts\<close> talks to an external browser driver.
  Every call the service issues is recorded as a value of \<open>driver_call\<close>; the driver itself
  is a function that tells, for a call, whether it rejects (\<open>Some message\<close>) or
  resolves (\<open>None\<close>). Each operation takes the driver as an argument, so two operations
  may meet different driver behaviour.

  JavaScript numbers are modelled as \<open>real\<close> (coordinates) and \<open>int\<close> (pixel sizes and
  millisecond clock readings); \<open>Date.now()\<close> is the argument \<open>now\<close> of an operation.
\<close>

datatype driver_call =
    Launch
  | NewContext
  | NewPage
  | Goto string
  | NewCDPSession
  | StartScreencast
  | ScreencastFrameAck
  | CaptureScreenshot
  | StopScreencast
  | Detach
  | PageClose
  | ContextClose
  | BrowserClose
  | MouseClick real real
  | MouseMoveTo real real
  | MouseDownButton
  | MouseUpButton
  | GoBack
  | GoForward
  | Reload
  | KeyboardPress string
  | KeyboardType string

type_synonym driver = "driver_call \<Rightarrow> string option"

record ViewportSize =
  width :: int
  height :: int

record Page =
  viewportSize :: "ViewportSize option"

record service =
  browser :: "unit option"
  browserContext :: "unit option"
  page :: "Page option"
  streamingClient :: "unit option"
  isStreaming :: bool
  lastActivity :: int
  sessionId :: string
  periodicFrameInterval :: "unit option"
  lastFrameTimestamp :: int

text \<open>
  An operation returns its result (\<open>Inl message\<close> when it throws), the service state it
  leaves behind and the driver calls it issued, in order.
\<close>

type_synonym 'a outcome = "(string + 'a) \<times> service \<times> driver_call list"

definition resultOf :: "'a outcome \<Rightarrow> string + 'a" where
  "resultOf r = fst r"

definition stateOf :: "'a outcome \<Rightarrow> service" where
  "stateOf r = fst (snd r)"

definition callsOf :: "'a outcome \<Rightarrow> driver_call list" where
  "callsOf r = snd (snd r)"

section \<open>Pointer operations\<close>

text \<open>
  \<^verbatim>\<open>click\<close>, \<^verbatim>\<open>mouseDown\<close>, \<^verbatim>\<open>mouseUp\<close> and \<^verbatim>\<open>mouseMove\<close> each carry the same
  lines computing \<^verbatim>\<open>absoluteX\<close> and \<^verbatim>\<open>absoluteY\<close>; they are written once here.
  \<^verbatim>\<open>Math.floor\<close> is the floor of the exact product. The program multiplies in binary64:
  where the rounded product reaches a whole number that the exact product stays below, the
  pixel the program computes from a fraction is one more than this floor. The comparisons
  and \<^verbatim>\<open>Math.min\<close> of the other two branches are exact in binary64.
\<close>

definition absoluteXY :: "ViewportSize \<Rightarrow> real \<Rightarrow> real \<Rightarrow> real \<times> real" where
  "absoluteXY vp x y =
     (if x \<le> 1 \<and> y \<le> 1 then
        (of_int \<lfloor>x * of_int (width vp)\<rfloor>, of_int \<lfloor>y * of_int (height vp)\<rfloor>)
      else if x > of_int (width vp) \<or> y > of_int (height vp) then
        (min x (of_int (width vp) - 1), min y (of_int (height vp) - 1))
      else (x, y))"

definition click :: "driver \<Rightarrow> int \<Rightarrow> service \<Rightarrow> real \<Rightarrow> real \<Rightarrow> unit outcome" where
  "click d now s x y =
     (case page s of
        None \<Rightarrow> (Inl ''Playwright not initialized'', s, [])
      | Some p \<Rightarrow>
          (case viewportSize p of
             None \<Rightarrow> (Inl ''Unable to get viewport size'', s, [])
           | Some vp \<Rightarrow>
               (case absoluteXY vp x y of
                  (ax, ay) \<Rightarrow>
                    (case d (MouseClick ax ay) of
                       Some e \<Rightarrow> (Inl e, s, [MouseClick ax ay])
                     | None \<Rightarrow> (Inr (), s\<lparr>lastActivity := now\<rparr>, [MouseClick ax ay])))))"

definition mouseDown :: "driver \<Rightarrow> int \<Rightarrow> service \<Rightarrow> real \<Rightarrow> real \<Rightarrow> unit outcome" where
  "mouseDown d now s x y =
     (case page s of
        None \<Rightarrow> (Inl ''Playwright not initialized'', s, [])
      | Some p \<Rightarrow>
          (case viewportSize p of
             None \<Rightarrow> (Inl ''Unable to get viewport size'', s, [])
           | Some vp \<Rightarrow>
               (case absoluteXY vp x y of
                  (ax, ay) \<Rightarrow>
                    (case d (MouseMoveTo ax ay) of
                       Some e \<Rightarrow> (Inl e, s, [MouseMoveTo ax ay])
                     | None \<Rightarrow>
                         (case d MouseDownButton of
                            Some e \<Rightarrow> (Inl e, s, [MouseMoveTo ax ay, MouseDownButton])
                          | None \<Rightarrow>
                              (Inr (), s\<lparr>lastActivity := now\<rparr>,
                               [MouseMoveTo ax ay, MouseDownButton]))))))"

definition mouseUp :: "driver \<Rightarrow> int \<Rightarrow> service \<Rightarrow> real \<Rightarrow> real \<Rightarrow> unit outcome" where
  "mouseUp d now s x y =
     (case page s of
        None \<Rightarrow> (Inl ''Playwright not initialized'', s, [])
      | Some p \<Rightarrow>
          (case viewportSize p of
             None \<Rightarrow> (Inl ''Unable to get viewport size'', s, [])
           | Some vp \<Rightarrow>
               (case absoluteXY vp x y of
                  (ax, ay) \<Rightarrow>
                    (case d (MouseMoveTo ax ay) of
                       Some e \<Rightarrow> (Inl e, s, [MouseMoveTo ax ay])
                     | None \<Rightarrow>
                         (case d MouseUpButton of
                            Some e \<Rightarrow> (Inl e, s, [MouseMoveTo ax ay, MouseUpButton])
                          | None \<Rightarrow>
                              (Inr (), s\<lparr>lastActivity := now\<rparr>,
                               [MouseMoveTo ax ay, MouseUpButton]))))))"

definition mouseMove :: "driver \<Rightarrow> int \<Rightarrow> service \<Rightarrow> real \<Rightarrow> real \<Rightarrow> unit outcome" where
  "mouseMove d now s x y =
     (case page s of
        None \<Rightarrow> (Inl ''Playwright not initialized'', s, [])
      | Some p \<Rightarrow>
          (case viewportSize p of
             None \<Rightarrow> (Inl ''Unable to get viewport size'', s, [])
           | Some vp \<Rightarrow>
               (case absoluteXY vp x y of
                  (ax, ay) \<Rightarrow>
                    (case d (MouseMoveTo ax ay) of
                       Some e \<Rightarrow> (Inl e, s, [MouseMoveTo ax ay])
                     | None \<Rightarrow> (Inr (), s\<lparr>lastActivity := now\<rparr>, [MouseMoveTo ax ay])))))"

text \<open>
  The \<^verbatim>\<open>switch (data.type)\<close> of \<^verbatim>\<open>handleMouseEvent\<close>: which pointer operation a message
  type reaches.
\<close>

definition pointerOperation ::
  "string \<Rightarrow> driver \<Rightarrow> int \<Rightarrow> service \<Rightarrow> real \<Rightarrow> real \<Rightarrow> unit outcome" where
  "pointerOperation ty d now s x y =
     (if ty = ''click'' then click d now s x y
      else if ty = ''mousedown'' then mouseDown d now s x y
      else if ty = ''mouseup'' then mouseUp d now s x y
      else if ty = ''mousemove'' then mouseMove d now s x y
      else (Inr (), s, []))"

text \<open>The coordinate pair a driver call carries, if it carries one.\<close>

fun callCoordinates :: "driver_call \<Rightarrow> (real \<times> real) option" where
  "callCoordinates (MouseClick ax ay) = Some (ax, ay)"
| "callCoordinates (MouseMoveTo ax ay) = Some (ax, ay)"
| "callCoordinates _ = None"

definition withinViewport :: "ViewportSize \<Rightarrow> real \<times> real \<Rightarrow> bool" where
  "withinViewport vp c =
     (0 \<le> fst c \<and> fst c \<le> of_int (width vp) - 1 \<and> 0 \<le> snd c \<and> snd c \<le> of_int (height vp) - 1)"

definition defaultViewport :: ViewportSize where
  "defaultViewport = \<lparr>width = 1280, height = 720\<rparr>"

definition liveService :: service where
  "liveService =
     \<lparr>browser = Some (), browserContext = Some (), page = Some \<lparr>viewportSize = Some defaultViewport\<rparr>,
      streamingClient = Some (), isStreaming = True, lastActivity = 1000, sessionId = ''s1'',
      periodicFrameInterval = Some (), lastFrameTimestamp = 0\<rparr>"

definition obligingDriver :: driver where
  "obligingDriver c = None"

section \<open>Key presses and navigation\<close>

text \<open>
  The \<^verbatim>\<open>switch (key)\<close> of \<^verbatim>\<open>pressKey\<close>: the driver call a key leads to. The case
  labels of the switch are collected in \<open>specialKeys\<close>. A JavaScript string's
  \<^verbatim>\<open>length\<close> counts UTF-16 code units; here a string is a list of characters.
\<close>

definition specialKeys :: "string list" where
  "specialKeys =
     [''Back'', ''Forward'', ''F5'', ''Enter'', ''Backspace'', ''Tab'', ''Escape'',
      ''ArrowLeft'', ''ArrowRight'', ''ArrowUp'', ''ArrowDown'', ''Delete'', '' '']"

definition keyAction :: "string \<Rightarrow> driver_call" where
  "keyAction key =
     (if key = ''Back'' then GoBack
      else if key = ''Forward'' then GoForward
      else if key = ''F5'' then Reload
      else if key = ''Enter'' then KeyboardPress ''Enter''
      else if key = ''Backspace'' then KeyboardPress ''Backspace''
      else if key = ''Tab'' then KeyboardPress ''Tab''
      else if key = ''Escape'' then KeyboardPress ''Escape''
      else if key = ''ArrowLeft'' then KeyboardPress ''ArrowLeft''
      else if key = ''ArrowRight'' then KeyboardPress ''ArrowRight''
      else if key = ''ArrowUp'' then KeyboardPress ''ArrowUp''
      else if key = ''ArrowDown'' then KeyboardPress ''ArrowDown''
      else if key = ''Delete'' then KeyboardPress ''Delete''
      else if key = '' '' then KeyboardPress ''Space''
      else if length key = 1 then KeyboardType key
      else KeyboardPress key)"

definition pressKey :: "driver \<Rightarrow> int \<Rightarrow> service \<Rightarrow> string \<Rightarrow> unit outcome" where
  "pressKey d now s key =
     (case page s of
        None \<Rightarrow> (Inl ''Playwright not initialized'', s, [])
      | Some p \<Rightarrow>
          (case d (keyAction key) of
             Some e \<Rightarrow> (Inl e, s, [keyAction key])
           | None \<Rightarrow> (Inr (), s\<lparr>lastActivity := now\<rparr>, [keyAction key])))"

definition navigate :: "driver \<Rightarrow> int \<Rightarrow> service \<Rightarrow> string \<Rightarrow> unit outcome" where
  "navigate d now s url =
     (case page s of
        None \<Rightarrow> (Inl ''Playwright not initialized'', s, [])
      | Some p \<Rightarrow>
          (case d (Goto url) of
             Some e \<Rightarrow> (Inl e, s, [Goto url])
           | None \<Rightarrow> (Inr (), s\<lparr>lastActivity := now\<rparr>, [Goto url])))"

section \<open>Session start and teardown\<close>

text \<open>The field initialisers of the class: the state of a freshly constructed service.\<close>

definition newService :: service where
  "newService =
     \<lparr>browser = None, browserContext = None, page = None, streamingClient = None,
      isStreaming = False, lastActivity = 0, sessionId = [], periodicFrameInterval = None,
      lastFrameTimestamp = 0\<rparr>"

text \<open>
  \<^verbatim>\<open>setupScreencast\<close>: the capture handle is stored as soon as it is created; the
  streaming flag is set once the screencast has started.
\<close>

definition setupScreencast :: "driver \<Rightarrow> service \<Rightarrow> driver_call list \<Rightarrow> unit outcome" where
  "setupScreencast d s cs =
     (case page s of
        None \<Rightarrow> (Inl ''Page not initialized'', s, cs)
      | Some p \<Rightarrow>
          (case d NewCDPSession of
             Some e \<Rightarrow> (Inl e, s, cs @ [NewCDPSession])
           | None \<Rightarrow>
               (case d StartScreencast of
                  Some e \<Rightarrow>
                    (Inl e, s\<lparr>streamingClient := Some ()\<rparr>, cs @ [NewCDPSession, StartScreencast])
                | None \<Rightarrow>
                    (Inr (), s\<lparr>streamingClient := Some (), isStreaming := True\<rparr>,
                     cs @ [NewCDPSession, StartScreencast]))))"

text \<open>
  \<^verbatim>\<open>initialize\<close>: launch, context with the fixed 1280 x 720 viewport, page, landing page,
  screencast, heartbeat timer. Any rejected driver call is re-thrown, with the fields
  assigned so far left as they are.
\<close>

definition initialize :: "driver \<Rightarrow> int \<Rightarrow> string \<Rightarrow> service \<Rightarrow> unit outcome" where
  "initialize d now sid s0 =
     (let s1 = s0\<lparr>sessionId := sid, lastActivity := now\<rparr> in
      case d Launch of
        Some e \<Rightarrow> (Inl e, s1, [Launch])
      | None \<Rightarrow>
          (let s2 = s1\<lparr>browser := Some ()\<rparr> in
           case d NewContext of
             Some e \<Rightarrow> (Inl e, s2, [Launch, NewContext])
           | None \<Rightarrow>
               (let s3 = s2\<lparr>browserContext := Some ()\<rparr> in
                case d NewPage of
                  Some e \<Rightarrow> (Inl e, s3, [Launch, NewContext, NewPage])
                | None \<Rightarrow>
                    (let s4 = s3\<lparr>page := Some \<lparr>viewportSize = Some defaultViewport\<rparr>\<rparr>;
                         cs = [Launch, NewContext, NewPage, Goto ''https://www.excalidraw.com'']
                     in
                     case d (Goto ''https://www.excalidraw.com'') of
                       Some e \<Rightarrow> (Inl e, s4, cs)
                     | None \<Rightarrow>
                         (case setupScreencast d s4 cs of
                            (Inl e, s5, cs') \<Rightarrow> (Inl e, s5, cs')
                          | (Inr u, s5, cs') \<Rightarrow>
                              (Inr (), s5\<lparr>periodicFrameInterval := Some ()\<rparr>, cs'))))))"

text \<open>
  \<^verbatim>\<open>close\<close>, written stage by stage from the last stage to the first; each stage hands
  the state and the calls issued so far to the next one. A rejected \<^verbatim>\<open>close()\<close> call of
  the page, the context or the browser reaches the outer \<^verbatim>\<open>catch\<close>, which logs and
  re-throws. A rejected \<^verbatim>\<open>Page.stopScreencast\<close> or \<^verbatim>\<open>detach\<close> reaches the inner
  \<^verbatim>\<open>catch\<close>, which only logs.
\<close>

definition closeBrowser :: "driver \<Rightarrow> service \<Rightarrow> driver_call list \<Rightarrow> unit outcome" where
  "closeBrowser d s cs =
     (case browser s of
        None \<Rightarrow> (Inr (), s, cs)
      | Some b \<Rightarrow>
          (case d BrowserClose of
             Some e \<Rightarrow> (Inl e, s, cs @ [BrowserClose])
           | None \<Rightarrow> (Inr (), s\<lparr>browser := None\<rparr>, cs @ [BrowserClose])))"

definition closeContext :: "driver \<Rightarrow> service \<Rightarrow> driver_call list \<Rightarrow> unit outcome" where
  "closeContext d s cs =
     (case browserContext s of
        None \<Rightarrow> closeBrowser d s cs
      | Some c \<Rightarrow>
          (case d ContextClose of
             Some e \<Rightarrow> (Inl e, s, cs @ [ContextClose])
           | None \<Rightarrow> closeBrowser d (s\<lparr>browserContext := None\<rparr>) (cs @ [ContextClose])))"

definition closePage :: "driver \<Rightarrow> service \<Rightarrow> driver_call list \<Rightarrow> unit outcome" where
  "closePage d s cs =
     (case page s of
        None \<Rightarrow> closeContext d s cs
      | Some p \<Rightarrow>
          (case d PageClose of
             Some e \<Rightarrow> (Inl e, s, cs @ [PageClose])
           | None \<Rightarrow> closeContext d (s\<lparr>page := None\<rparr>) (cs @ [PageClose])))"

definition closeStreamingClient :: "driver \<Rightarrow> service \<Rightarrow> unit outcome" where
  "closeStreamingClient d s =
     (case streamingClient s of
        None \<Rightarrow> closePage d s []
      | Some c \<Rightarrow>
          (case d StopScreencast of
             Some e \<Rightarrow> closePage d (s\<lparr>streamingClient := None\<rparr>) [StopScreencast]
           | None \<Rightarrow> closePage d (s\<lparr>streamingClient := None\<rparr>) [StopScreencast, Detach]))"

definition close :: "driver \<Rightarrow> service \<Rightarrow> unit outcome" where
  "close d s =
     (let s1 = s\<lparr>isStreaming := False\<rparr>;
          s2 = (if periodicFrameInterval s1 \<noteq> None then s1\<lparr>periodicFrameInterval := None\<rparr>
                else s1)
      in closeStreamingClient d s2)"

text \<open>
  \<^verbatim>\<open>close\<close> is an \<^verbatim>\<open>async\<close> function: it runs up to an \<^verbatim>\<open>await\<close>, where the driver call
  has been issued and the function is suspended, and is resumed when the call settles.
  Another call of \<^verbatim>\<open>close\<close> on the same service may run in between. \<open>close_point\<close> is
  where one call of \<^verbatim>\<open>close\<close> stands; \<open>closeResume\<close> runs it from there to its next
  \<^verbatim>\<open>await\<close> or to its end, on the state of the service as it is then, with the driver
  telling how the awaited call settled.
\<close>

datatype close_point =
    NotStarted
  | StopPending
  | DetachPending
  | PagePending
  | ContextPending
  | BrowserPending
  | Returned
  | Thrown string

definition resumeAtBrowser :: "service \<Rightarrow> close_point \<times> service \<times> driver_call list" where
  "resumeAtBrowser s =
     (if browser s \<noteq> None then (BrowserPending, s, [BrowserClose]) else (Returned, s, []))"

definition resumeAtContext :: "service \<Rightarrow> close_point \<times> service \<times> driver_call list" where
  "resumeAtContext s =
     (if browserContext s \<noteq> None then (ContextPending, s, [ContextClose])
      else resumeAtBrowser s)"

definition resumeAtPage :: "service \<Rightarrow> close_point \<times> service \<times> driver_call list" where
  "resumeAtPage s =
     (if page s \<noteq> None then (PagePending, s, [PageClose]) else resumeAtContext s)"

fun closeResume ::
  "driver \<Rightarrow> close_point \<Rightarrow> service \<Rightarrow> close_point \<times> service \<times> driver_call list" where
  "closeResume d NotStarted s =
     (let s1 = s\<lparr>isStreaming := False\<rparr>;
          s2 = (if periodicFrameInterval s1 \<noteq> None then s1\<lparr>periodicFrameInterval := None\<rparr>
                else s1)
      in if streamingClient s2 \<noteq> None then (StopPending, s2, [StopScreencast])
         else resumeAtPage s2)"
| "closeResume d StopPending s =
     (case d StopScreencast of
        Some e \<Rightarrow> resumeAtPage (s\<lparr>streamingClient := None\<rparr>)
      | None \<Rightarrow>
          if streamingClient s \<noteq> None then (DetachPending, s, [Detach])
          else resumeAtPage (s\<lparr>streamingClient := None\<rparr>))"
| "closeResume d DetachPending s = resumeAtPage (s\<lparr>streamingClient := None\<rparr>)"
| "closeResume d PagePending s =
     (case d PageClose of
        Some e \<Rightarrow> (Thrown e, s, [])
      | None \<Rightarrow> resumeAtContext (s\<lparr>page := None\<rparr>))"
| "closeResume d ContextPending s =
     (case d ContextClose of
        Some e \<Rightarrow> (Thrown e, s, [])
      | None \<Rightarrow> resumeAtBrowser (s\<lparr>browserContext := None\<rparr>))"
| "closeResume d BrowserPending s =
     (case d BrowserClose of
        Some e \<Rightarrow> (Thrown e, s, [])
      | None \<Rightarrow> (Returned, s\<lparr>browser := None\<rparr>, []))"
| "closeResume d Returned s = (Returned, s, [])"
| "closeResume d (Thrown e) s = (Thrown e, s, [])"

text \<open>One call of \<^verbatim>\<open>close\<close> resumed \<open>n\<close> times with no other call in between.\<close>

fun closeAlone ::
  "nat \<Rightarrow> driver \<Rightarrow> close_point \<Rightarrow> service \<Rightarrow> close_point \<times> service \<times> driver_call list"
  where
  "closeAlone 0 d pt s = (pt, s, [])"
| "closeAlone (Suc n) d pt s =
     (case closeResume d pt s of
        (pt', s', cs) \<Rightarrow>
          (case closeAlone n d pt' s' of (pt'', s'', cs') \<Rightarrow> (pt'', s'', cs @ cs')))"

text \<open>
  Two calls of \<^verbatim>\<open>close\<close> on one service; the schedule tells, turn by turn, which of the
  two is resumed (\<open>True\<close> the first).
\<close>

fun closeOverlapped ::
  "driver \<Rightarrow> bool list \<Rightarrow> close_point \<Rightarrow> close_point \<Rightarrow> service
     \<Rightarrow> (close_point \<times> close_point) \<times> service \<times> driver_call list"
  where
  "closeOverlapped d [] a b s = ((a, b), s, [])"
| "closeOverlapped d (True # turns) a b s =
     (case closeResume d a s of
        (a', s', cs) \<Rightarrow>
          (case closeOverlapped d turns a' b s' of (pts, s'', cs') \<Rightarrow> (pts, s'', cs @ cs')))"
| "closeOverlapped d (False # turns) a b s =
     (case closeResume d b s of
        (b', s', cs) \<Rightarrow>
          (case closeOverlapped d turns a b' s' of (pts, s'', cs') \<Rightarrow> (pts, s'', cs @ cs')))"

text \<open>
  To compare the two descriptions of \<^verbatim>\<open>close\<close>: a suspended call carried on alone for
  \<open>n\<close> more resumptions, and the outcome of \<open>close\<close> read as a point reached.
\<close>

definition carriedOn ::
  "nat \<Rightarrow> driver \<Rightarrow> close_point \<times> service \<times> driver_call list
     \<Rightarrow> close_point \<times> service \<times> driver_call list"
  where
  "carriedOn n d r =
     (case r of
        (pt, s, cs) \<Rightarrow> (case closeAlone n d pt s of (pt', s', cs') \<Rightarrow> (pt', s', cs @ cs')))"

definition settled :: "unit outcome \<Rightarrow> close_point \<times> service \<times> driver_call list" where
  "settled r =
     (case r of (Inl e, s, cs) \<Rightarrow> (Thrown e, s, cs) | (Inr u, s, cs) \<Rightarrow> (Returned, s, cs))"

section \<open>Frame forwarding\<close>

text \<open>
  What the server passes to \<^verbatim>\<open>ws.send\<close>: a chat message with its text (the sender is
  always the system), or a frame message. A frame message is recorded with the trigger
  that produced it and the clock reading of the callback that forwarded it; the image
  payload is left out.
\<close>

datatype frame_trigger = EventDriven | Heartbeat

datatype outbound = ChatOut string | FrameOut frame_trigger int

definition FRAME_INTERVAL :: int where
  "FRAME_INTERVAL = 1000"

text \<open>
  The two callbacks, each run from its clock reading \<open>now\<close> to its end without another
  callback in between. \<open>wsOpen\<close> tells whether \<^verbatim>\<open>findWebSocketForSession\<close> finds an
  open connection of this session. The result is the state, the messages sent and the
  driver calls issued.

  The \<^verbatim>\<open>Page.screencastFrame\<close> callback of \<^verbatim>\<open>setupScreencast\<close> records the frame time
  before it looks for the connection.
\<close>

definition screencastFrame ::
  "int \<Rightarrow> bool \<Rightarrow> service \<Rightarrow> service \<times> outbound list \<times> driver_call list" where
  "screencastFrame now wsOpen s =
     (if \<not> isStreaming s then (s, [], [])
      else
        (let s' = s\<lparr>lastFrameTimestamp := now, lastActivity := now\<rparr> in
         if \<not> wsOpen then (s', [], [])
         else if isStreaming s' \<and> streamingClient s' \<noteq> None then
           (s', [FrameOut EventDriven now], [ScreencastFrameAck])
         else (s', [FrameOut EventDriven now], [])))"

text \<open>The \<^verbatim>\<open>setInterval\<close> callback of \<^verbatim>\<open>startPeriodicFrames\<close>.\<close>

definition periodicFrame ::
  "driver \<Rightarrow> int \<Rightarrow> bool \<Rightarrow> service \<Rightarrow> service \<times> outbound list \<times> driver_call list" where
  "periodicFrame d now wsOpen s =
     (if \<not> isStreaming s \<or> page s = None \<or> streamingClient s = None then (s, [], [])
      else if lastFrameTimestamp s = 0 \<or> now - lastFrameTimestamp s \<ge> FRAME_INTERVAL then
        (case d CaptureScreenshot of
           Some e \<Rightarrow> (s, [], [CaptureScreenshot])
         | None \<Rightarrow>
             if \<not> wsOpen then (s, [], [CaptureScreenshot])
             else (s\<lparr>lastFrameTimestamp := now\<rparr>, [FrameOut Heartbeat now], [CaptureScreenshot]))
      else (s, [], []))"

text \<open>
  The timer callback has an \<^verbatim>\<open>await\<close> in it: the test on the recorded frame time is made
  at the clock reading \<open>now\<close>, then the capture is awaited, and the frame is sent and
  recorded when the capture has settled, on the state of the service as it is then.
  \<open>heartbeatDue\<close> is the part before the \<^verbatim>\<open>await\<close> (true when the capture is started),
  \<open>heartbeatSettled\<close> the part after it; a \<^verbatim>\<open>Page.screencastFrame\<close> callback may run
  in between. Reading the viewport of a page that is gone throws, which the \<^verbatim>\<open>catch\<close>
  logs.
\<close>

definition heartbeatDue :: "int \<Rightarrow> service \<Rightarrow> bool" where
  "heartbeatDue now s =
     (\<not> (\<not> isStreaming s \<or> page s = None \<or> streamingClient s = None)
      \<and> (lastFrameTimestamp s = 0 \<or> now - lastFrameTimestamp s \<ge> FRAME_INTERVAL))"

definition heartbeatSettled ::
  "driver \<Rightarrow> int \<Rightarrow> bool \<Rightarrow> service \<Rightarrow> service \<times> outbound list" where
  "heartbeatSettled d now wsOpen s =
     (case d CaptureScreenshot of
        Some e \<Rightarrow> (s, [])
      | None \<Rightarrow>
          if \<not> wsOpen then (s, [])
          else if page s = None then (s, [])
          else (s\<lparr>lastFrameTimestamp := now\<rparr>, [FrameOut Heartbeat now]))"

text \<open>
  A streaming session as the sequence of callbacks that ran: each with its clock reading
  and with whether the connection was found open.
\<close>

datatype stream_event = ScreencastFrame int bool | PeriodicTick int bool

fun eventTime :: "stream_event \<Rightarrow> int" where
  "eventTime (ScreencastFrame t w) = t"
| "eventTime (PeriodicTick t w) = t"

fun connectionFound :: "stream_event \<Rightarrow> bool" where
  "connectionFound (ScreencastFrame t w) = w"
| "connectionFound (PeriodicTick t w) = w"

fun streamStep :: "driver \<Rightarrow> stream_event \<Rightarrow> service \<Rightarrow> service \<times> outbound list" where
  "streamStep d (ScreencastFrame t w) s = (case screencastFrame t w s of (s', out, cs) \<Rightarrow> (s', out))"
| "streamStep d (PeriodicTick t w) s = (case periodicFrame d t w s of (s', out, cs) \<Rightarrow> (s', out))"

fun runStream :: "driver \<Rightarrow> stream_event list \<Rightarrow> service \<Rightarrow> service \<times> outbound list" where
  "runStream d [] s = (s, [])"
| "runStream d (e # es) s =
     (case streamStep d e s of
        (s', out) \<Rightarrow> (case runStream d es s' of (s'', out') \<Rightarrow> (s'', out @ out')))"

definition forwarded :: "driver \<Rightarrow> stream_event list \<Rightarrow> service \<Rightarrow> outbound list" where
  "forwarded d es s = snd (runStream d es s)"

fun frameTimes :: "outbound list \<Rightarrow> int list" where
  "frameTimes [] = []"
| "frameTimes (FrameOut k t # ms) = t # frameTimes ms"
| "frameTimes (ChatOut txt # ms) = frameTimes ms"

text \<open>The frame messages among \<open>ms\<close> with a clock reading in \<open>[lo, hi)\<close>.\<close>

definition framesBetween :: "int \<Rightarrow> int \<Rightarrow> outbound list \<Rightarrow> outbound list" where
  "framesBetween lo hi ms =
     filter (\<lambda>m. case m of FrameOut k t \<Rightarrow> lo \<le> t \<and> t < hi | ChatOut txt \<Rightarrow> False) ms"

section \<open>The relay server\<close>

text \<open>
  \<^verbatim>\<open>streaming-server.ts\<close>. The registry \<^verbatim>\<open>activeSessions\<close> is a map from session
  identifiers to services. A connection records its identifier, its ready state and
  every message passed to its \<^verbatim>\<open>send\<close>.
\<close>

type_synonym registry = "string \<rightharpoonup> service"

datatype ready_state = CONNECTING | OPEN | CLOSING | CLOSED

record WebSocket =
  wsSessionId :: string
  readyState :: ready_state
  sent :: "outbound list"

definition wsSend :: "outbound \<Rightarrow> WebSocket \<Rightarrow> WebSocket" where
  "wsSend m ws = ws\<lparr>sent := sent ws @ [m]\<rparr>"

text \<open>
  A parsed client message: its \<^verbatim>\<open>type\<close>, its coordinates (\<open>None\<close> when the field is not
  a number), its \<^verbatim>\<open>key\<close> (\<open>None\<close> when absent) and the \<^verbatim>\<open>text\<close> of its content.
\<close>

record clientData =
  dataType :: string
  dataX :: "real option"
  dataY :: "real option"
  dataKey :: "string option"
  dataText :: string

definition handleMouseEvent ::
  "driver \<Rightarrow> int \<Rightarrow> service \<Rightarrow> clientData \<Rightarrow> WebSocket \<Rightarrow> service \<times> WebSocket \<times> driver_call list"
  where
  "handleMouseEvent d now svc dat ws =
     (case (dataX dat, dataY dat) of
        (Some x, Some y) \<Rightarrow>
          (case pointerOperation (dataType dat) d now svc x y of
             (Inl e, svc', cs) \<Rightarrow>
               (svc', wsSend (ChatOut (''Error with '' @ dataType dat @ '': '' @ e)) ws, cs)
           | (Inr u, svc', cs) \<Rightarrow> (svc', ws, cs))
      | _ \<Rightarrow>
          (svc, wsSend (ChatOut (''Error with '' @ dataType dat @ '': Missing coordinates'')) ws,
           []))"

definition handleKeyEvent ::
  "driver \<Rightarrow> int \<Rightarrow> service \<Rightarrow> clientData \<Rightarrow> WebSocket \<Rightarrow> service \<times> WebSocket \<times> driver_call list"
  where
  "handleKeyEvent d now svc dat ws =
     (case dataKey dat of
        None \<Rightarrow> (svc, wsSend (ChatOut ''Error pressing key: Missing key value'') ws, [])
      | Some key \<Rightarrow>
          if key = [] then
            (svc, wsSend (ChatOut ''Error pressing key: Missing key value'') ws, [])
          else
            (case pressKey d now svc key of
               (Inl e, svc', cs) \<Rightarrow> (svc', wsSend (ChatOut (''Error pressing key: '' @ e)) ws, cs)
             | (Inr u, svc', cs) \<Rightarrow> (svc', ws, cs)))"

text \<open>
  The pattern \<^verbatim>\<open>/^(go to|navigate to|open) (.+)$/i\<close>: one of the three keywords in any
  letter case, one space, then at least one character up to the end of the text, none of
  them a line terminator (\<^verbatim>\<open>.\<close> matches none, and \<^verbatim>\<open>$\<close> is the end of the text).
  The result is the second group.
\<close>

definition toLowerCase :: "char \<Rightarrow> char" where
  "toLowerCase c =
     (case map_of (zip ''ABCDEFGHIJKLMNOPQRSTUVWXYZ'' ''abcdefghijklmnopqrstuvwxyz'') c of
        None \<Rightarrow> c
      | Some l \<Rightarrow> l)"

definition lineTerminator :: "char \<Rightarrow> bool" where
  "lineTerminator c = (c = CHR 0x0A \<or> c = CHR 0x0D)"

definition matchKeyword :: "string \<Rightarrow> string \<Rightarrow> string option" where
  "matchKeyword kw text =
     (if map toLowerCase (take (length kw) text) = kw
         \<and> take 1 (drop (length kw) text) = '' ''
         \<and> drop (length kw + 1) text \<noteq> []
         \<and> list_all (\<lambda>c. \<not> lineTerminator c) (drop (length kw + 1) text)
      then Some (drop (length kw + 1) text)
      else None)"

definition navigateMatch :: "string \<Rightarrow> string option" where
  "navigateMatch text =
     (case matchKeyword ''go to'' text of
        Some target \<Rightarrow> Some target
      | None \<Rightarrow>
          (case matchKeyword ''navigate to'' text of
             Some target \<Rightarrow> Some target
           | None \<Rightarrow> matchKeyword ''open'' text))"

definition startsWith :: "string \<Rightarrow> string \<Rightarrow> bool" where
  "startsWith p str = (take (length p) str = p)"

definition handleChatMessage ::
  "driver \<Rightarrow> int \<Rightarrow> service \<Rightarrow> string \<Rightarrow> WebSocket \<Rightarrow> service \<times> WebSocket \<times> driver_call list"
  where
  "handleChatMessage d now svc text ws =
     (case navigateMatch text of
        Some target \<Rightarrow>
          (let url = (if startsWith ''http'' target then target else ''https://'' @ target);
               ws1 = wsSend (ChatOut (''Navigating to '' @ url @ ''...'')) ws
           in
           case navigate d now svc url of
             (Inl e, svc', cs) \<Rightarrow> (svc', wsSend (ChatOut (''Error navigating: '' @ e)) ws1, cs)
           | (Inr u, svc', cs) \<Rightarrow> (svc', ws1, cs))
      | None \<Rightarrow>
          (svc, wsSend (ChatOut (''Received your message: '' @ [CHR 0x22] @ text @ [CHR 0x22])) ws, []))"

text \<open>
  The \<^verbatim>\<open>connection\<close> handler up to the registration of the message handler. The session
  identifier \<open>sid\<close> is the fresh \<^verbatim>\<open>uuidv4()\<close>.
\<close>

definition onConnection ::
  "driver \<Rightarrow> int \<Rightarrow> string \<Rightarrow> registry \<Rightarrow> WebSocket \<Rightarrow> registry \<times> WebSocket \<times> driver_call list"
  where
  "onConnection d now sid activeSessions ws =
     (let ws1 =
            wsSend
              (ChatOut ''Connected to browser automation server. Initializing browser...'')
              (ws\<lparr>wsSessionId := sid\<rparr>)
      in
      case initialize d now sid newService of
        (Inr u, browserService, cs) \<Rightarrow>
          (activeSessions(sid \<mapsto> browserService),
           wsSend (ChatOut ''Browser initialized and streaming. Ready for interaction!'') ws1,
           cs)
      | (Inl e, browserService, cs) \<Rightarrow>
          (activeSessions, wsSend (ChatOut (''Error initializing browser: '' @ e)) ws1, cs))"

text \<open>
  The \<^verbatim>\<open>message\<close> handler. \<open>parsed\<close> is what \<^verbatim>\<open>JSON.parse\<close> makes of the raw message:
  \<open>Inl\<close> the message of the error it throws, \<open>Inr\<close> the parsed data. The service is an
  object held by the registry, so what an operation does to it is seen through the
  registry.
\<close>

definition onMessage ::
  "driver \<Rightarrow> int \<Rightarrow> string \<Rightarrow> registry \<Rightarrow> WebSocket \<Rightarrow> string + clientData
     \<Rightarrow> registry \<times> WebSocket \<times> driver_call list"
  where
  "onMessage d now sid activeSessions ws parsed =
     (case parsed of
        Inl e \<Rightarrow> (activeSessions, wsSend (ChatOut (''Error processing message: '' @ e)) ws, [])
      | Inr dat \<Rightarrow>
          (case activeSessions sid of
             None \<Rightarrow>
               (activeSessions,
                wsSend (ChatOut ''Session not found or expired. Please reconnect.'') ws, [])
           | Some browserService \<Rightarrow>
               (case
                  (if dataType dat = ''click'' \<or> dataType dat = ''mousedown''
                      \<or> dataType dat = ''mouseup'' \<or> dataType dat = ''mousemove''
                   then handleMouseEvent d now browserService dat ws
                   else if dataType dat = ''keyPress'' \<or> dataType dat = ''keypress''
                   then handleKeyEvent d now browserService dat ws
                   else if dataType dat = ''chat''
                   then handleChatMessage d now browserService (dataText dat) ws
                   else
                     (browserService,
                      wsSend (ChatOut (''Unknown command: '' @ dataType dat)) ws, []))
                of
                  (svc', ws', cs) \<Rightarrow> (activeSessions(sid \<mapsto> svc'), ws', cs))))"

text \<open>
  \<^verbatim>\<open>cleanupSession\<close>: the entry is deleted only after \<^verbatim>\<open>close\<close> has returned; when
  \<^verbatim>\<open>close\<close> throws, the error is logged and the entry stays.
\<close>

definition cleanupSession ::
  "driver \<Rightarrow> string \<Rightarrow> registry \<Rightarrow> registry \<times> driver_call list" where
  "cleanupSession d sid activeSessions =
     (case activeSessions sid of
        None \<Rightarrow> (activeSessions, [])
      | Some browserService \<Rightarrow>
          (case close d browserService of
             (Inr u, svc', cs) \<Rightarrow> (activeSessions(sid := None), cs)
           | (Inl e, svc', cs) \<Rightarrow> (activeSessions(sid \<mapsto> svc'), cs)))"

section \<open>Sample drivers and connections\<close>

text \<open>
  Drivers that reject one call, and a connection as the server receives it: open, with
  nothing sent yet.
\<close>

definition pageCloseFails :: driver where
  "pageCloseFails c = (if c = PageClose then Some ''Target closed'' else None)"

definition stopScreencastFails :: driver where
  "stopScreencastFails c = (if c = StopScreencast then Some ''Session closed'' else None)"

definition contextCloseFails :: driver where
  "contextCloseFails c = (if c = ContextClose then Some ''Context closed'' else None)"

definition browserCloseFails :: driver where
  "browserCloseFails c = (if c = BrowserClose then Some ''Browser closed'' else None)"

definition launchFails :: driver where
  "launchFails c = (if c = Launch then Some ''Failed to launch browser'' else None)"

definition gotoFails :: driver where
  "gotoFails c =
     (if c = Goto ''https://www.excalidraw.com'' then Some ''net::ERR_NAME_NOT_RESOLVED''
      else None)"

definition clickMessage :: clientData where
  "clickMessage =
     \<lparr>dataType = ''click'', dataX = Some (1/2), dataY = Some (1/2), dataKey = None,
      dataText = []\<rparr>"

definition newSocket :: WebSocket where
  "newSocket = \<lparr>wsSessionId = [], readyState = OPEN, sent = []\<rparr>"

section \<open>Coordinate normalization: what reaches the driver\<close>

lemma click_calls:
  "page s = Some p \<Longrightarrow> viewportSize p = Some vp \<Longrightarrow>
   callsOf (click d now s x y) = [MouseClick (fst (absoluteXY vp x y)) (snd (absoluteXY vp x y))]"
  by (simp add: click_def callsOf_def split: prod.splits option.splits)

lemma pointerOperation_coordinates:
  "page s = Some p \<Longrightarrow> viewportSize p = Some vp \<Longrightarrow>
   c \<in> set (callsOf (pointerOperation ty d now s x y)) \<Longrightarrow> callCoordinates c = Some xy \<Longrightarrow>
   xy = absoluteXY vp x y"
  by (auto simp: pointerOperation_def click_def mouseDown_def mouseUp_def mouseMove_def callsOf_def
      split: prod.splits option.splits if_splits)

text \<open>The sample service is what \<open>initialize\<close> leaves behind when the driver rejects nothing.\<close>

lemma initialize_liveService:
  "initialize obligingDriver 1000 ''s1'' newService
     = (Inr (), liveService,
        [Launch, NewContext, NewPage, Goto ''https://www.excalidraw.com'', NewCDPSession,
         StartScreencast])"
  by (simp add: initialize_def setupScreencast_def obligingDriver_def newService_def
      liveService_def)

lemma page_liveService:
  "page liveService = Some \<lparr>viewportSize = Some defaultViewport\<rparr>"
  by (simp add: liveService_def)

lemma fraction_floor_bounds:
  fixes x :: real and W :: int
  assumes "0 \<le> x" "x < 1" "1 \<le> W"
  shows "0 \<le> \<lfloor>x * of_int W\<rfloor>" "\<lfloor>x * of_int W\<rfloor> \<le> W - 1"
proof -
  have "0 \<le> x * of_int W" using assms by simp
  then show "0 \<le> \<lfloor>x * of_int W\<rfloor>" by simp
  have "x * of_int W < of_int W" using assms by simp
  then have "\<lfloor>x * of_int W\<rfloor> < W" by (simp add: floor_less_iff)
  then show "\<lfloor>x * of_int W\<rfloor> \<le> W - 1" by simp
qed

lemma absoluteXY_within:
  assumes "1 \<le> width vp" "1 \<le> height vp" "0 \<le> x" "0 \<le> y"
    and "(x < 1 \<and> y < 1) \<or> x > of_int (width vp) \<or> y > of_int (height vp)
         \<or> (\<not> (x \<le> 1 \<and> y \<le> 1) \<and> x \<le> of_int (width vp) - 1 \<and> y \<le> of_int (height vp) - 1)"
  shows "withinViewport vp (absoluteXY vp x y)"
proof -
  consider (fraction) "x < 1" "y < 1"
    | (large) "\<not> (x \<le> 1 \<and> y \<le> 1)" "x > of_int (width vp) \<or> y > of_int (height vp)"
    | (pixels) "\<not> (x \<le> 1 \<and> y \<le> 1)" "\<not> (x > of_int (width vp) \<or> y > of_int (height vp))"
        "x \<le> of_int (width vp) - 1" "y \<le> of_int (height vp) - 1"
    using assms by force
  then show ?thesis
  proof cases
    case fraction
    have a: "of_int \<lfloor>x * of_int (width vp)\<rfloor> \<le> (of_int (width vp) - 1 :: real)"
      using fraction_floor_bounds(2)[OF assms(3) fraction(1) assms(1)]
      by (metis of_int_1 of_int_diff of_int_le_iff)
    have b: "of_int \<lfloor>y * of_int (height vp)\<rfloor> \<le> (of_int (height vp) - 1 :: real)"
      using fraction_floor_bounds(2)[OF assms(4) fraction(2) assms(2)]
      by (metis of_int_1 of_int_diff of_int_le_iff)
    show ?thesis
      using fraction assms a b fraction_floor_bounds(1)[OF assms(3) fraction(1) assms(1)]
         fraction_floor_bounds(1)[OF assms(4) fraction(2) assms(2)]
      by (simp add: absoluteXY_def withinViewport_def)
  next
    case large
    then show ?thesis using assms by (auto simp: absoluteXY_def withinViewport_def)
  next
    case pixels
    then show ?thesis using assms by (auto simp: absoluteXY_def withinViewport_def)
  qed
qed

text \<open>
  Claim C1, as the code has it. The code clamps from above only, so a negative component
  is never brought back to 0. For a pair of non-negative components that is a fraction pair
  with both components below 1, or has a component beyond its viewport dimension, or lies
  within \<open>[0, W-1] \<times> [0, H-1]\<close> already (not both components at most 1), every coordinate
  pair that a pointer operation (click, mouseDown, mouseUp, mouseMove) passes to the driver
  is the normalized pair and lies within \<open>[0, W-1] \<times> [0, H-1]\<close>. The viewport has at
  least one pixel each way.
\<close>

theorem pointer_coordinates_within_viewport:
  assumes "page s = Some p" and "viewportSize p = Some vp"
    and "1 \<le> width vp" and "1 \<le> height vp"
    and "0 \<le> x" and "0 \<le> y"
    and "(x < 1 \<and> y < 1) \<or> x > of_int (width vp) \<or> y > of_int (height vp)
         \<or> (\<not> (x \<le> 1 \<and> y \<le> 1) \<and> x \<le> of_int (width vp) - 1 \<and> y \<le> of_int (height vp) - 1)"
    and "c \<in> set (callsOf (pointerOperation ty d now s x y))"
    and "callCoordinates c = Some xy"
  shows "xy = absoluteXY vp x y \<and> withinViewport vp xy"
  using pointerOperation_coordinates[OF assms(1,2,8,9)]
    absoluteXY_within[OF assms(3,4,5,6,7)] by simp

theorem pointer_coordinates_within_viewport_witness:
  "callsOf (pointerOperation ''mousedown'' obligingDriver 5 liveService (1/4) (3/4))
     = [MouseMoveTo 320 540, MouseDownButton]
   \<and> withinViewport defaultViewport (320, 540)"
proof -
  have calls: "callsOf (pointerOperation ''mousedown'' obligingDriver 5 liveService (1/4) (3/4))
     = [MouseMoveTo 320 540, MouseDownButton]"
    by (simp add: pointerOperation_def mouseDown_def callsOf_def liveService_def
        defaultViewport_def absoluteXY_def obligingDriver_def)
  have h1: "page liveService = Some \<lparr>viewportSize = Some defaultViewport\<rparr>"
    by (simp add: liveService_def)
  have h2: "viewportSize \<lparr>viewportSize = Some defaultViewport\<rparr> = Some defaultViewport"
    by simp
  have h3: "1 \<le> width defaultViewport" and h4: "1 \<le> height defaultViewport"
    by (simp_all add: defaultViewport_def)
  have h5: "(0::real) \<le> 1/4" and h6: "(0::real) \<le> 3/4"
    by simp_all
  have h7: "((1/4::real) < 1 \<and> (3/4::real) < 1) \<or> 1/4 > of_int (width defaultViewport)
      \<or> 3/4 > of_int (height defaultViewport)
      \<or> (\<not> ((1/4::real) \<le> 1 \<and> (3/4::real) \<le> 1) \<and> 1/4 \<le> of_int (width defaultViewport) - 1
          \<and> 3/4 \<le> of_int (height defaultViewport) - 1)"
    by simp
  have h8: "MouseMoveTo 320 540
      \<in> set (callsOf (pointerOperation ''mousedown'' obligingDriver 5 liveService (1/4) (3/4)))"
    using calls by simp
  have h9: "callCoordinates (MouseMoveTo 320 540) = Some (320, 540)"
    by simp
  from pointer_coordinates_within_viewport[OF h1 h2 h3 h4 h5 h6 h7 h8 h9]
  have "withinViewport defaultViewport (320, 540)" by (rule conjunct2)
  with calls show ?thesis by (rule conjI)
qed

text \<open>
  Claim C1 as stated fails: with the 1280 x 720 viewport the pair (-5, 800) is "clamped" to
  (-5, 719), which is left of the viewport.
\<close>

theorem pointer_coordinates_counterexample:
  "callsOf (click obligingDriver 5 liveService (-5) 800) = [MouseClick (-5) 719]
   \<and> \<not> withinViewport defaultViewport (-5, 719)"
  by (simp add: click_def callsOf_def liveService_def defaultViewport_def absoluteXY_def
      obligingDriver_def withinViewport_def)

text \<open>
  A click at the centre of the 1280 x 720 viewport: both products are whole numbers, so no
  rounding is involved, and the driver click is at (640, 360).
\<close>

lemma click_at_centre:
  "callsOf (click obligingDriver 5 liveService (1/2) (1/2)) = [MouseClick 640 360]"
  by (simp add: click_def callsOf_def liveService_def defaultViewport_def absoluteXY_def
      obligingDriver_def)

text \<open>
  Claim C3. For every pair with \<open>x > W\<close> or \<open>y > H\<close> the normalized pair is
  \<open>(min x (W-1), min y (H-1))\<close>, and a click issues exactly one driver click, at that
  pixel. The viewport has at least one pixel each way.
\<close>

theorem oversized_pair_clamped:
  assumes "1 \<le> width vp" and "1 \<le> height vp"
    and "x > of_int (width vp) \<or> y > of_int (height vp)"
  shows "absoluteXY vp x y = (min x (of_int (width vp) - 1), min y (of_int (height vp) - 1))
         \<and> (page s = Some p \<and> viewportSize p = Some vp \<longrightarrow>
              callsOf (click d now s x y)
                = [MouseClick (min x (of_int (width vp) - 1)) (min y (of_int (height vp) - 1))])"
proof -
  have "\<not> (x \<le> 1 \<and> y \<le> 1)"
  proof
    assume small: "x \<le> 1 \<and> y \<le> 1"
    have "(1::real) \<le> of_int (width vp)" and "(1::real) \<le> of_int (height vp)"
      using assms(1,2) by simp_all
    with small assms(3) show False by linarith
  qed
  then have n: "absoluteXY vp x y
                  = (min x (of_int (width vp) - 1), min y (of_int (height vp) - 1))"
    using assms(3) by (auto simp: absoluteXY_def)
  show ?thesis using n click_calls[of s p vp d now x y] by simp
qed

theorem oversized_pair_clamped_witness:
  "(2000::real) > of_int (width defaultViewport)
   \<and> absoluteXY defaultViewport 2000 50 = (1279, 50)
   \<and> callsOf (click obligingDriver 5 liveService 2000 50) = [MouseClick 1279 50]"
  using oversized_pair_clamped[of defaultViewport 2000 50 liveService
      "\<lparr>viewportSize = Some defaultViewport\<rparr>" obligingDriver 5]
  by (simp add: liveService_def defaultViewport_def)

text \<open>
  Claim C4. A pair within \<open>[0, W-1] \<times> [0, H-1]\<close> whose components are not both at most 1
  is left as it is: a click issues one driver click at \<open>(x, y)\<close>, and every coordinate pair
  a pointer operation passes to the driver is \<open>(x, y)\<close>.
\<close>

theorem valid_pixel_pair_unchanged:
  assumes "0 \<le> x" and "x \<le> of_int (width vp) - 1"
    and "0 \<le> y" and "y \<le> of_int (height vp) - 1"
    and "\<not> (x \<le> 1 \<and> y \<le> 1)"
  shows "absoluteXY vp x y = (x, y)
         \<and> (page s = Some p \<and> viewportSize p = Some vp \<longrightarrow>
              callsOf (click d now s x y) = [MouseClick x y]
              \<and> (\<forall>c \<in> set (callsOf (pointerOperation ty d now s x y)).
                    \<forall>xy. callCoordinates c = Some xy \<longrightarrow> xy = (x, y)))"
proof -
  have n: "absoluteXY vp x y = (x, y)"
    using assms by (auto simp: absoluteXY_def)
  show ?thesis
    using n click_calls[of s p vp d now x y]
      pointerOperation_coordinates[of s p vp _ ty d now x y]
    by auto
qed

theorem valid_pixel_pair_unchanged_witness:
  "(0::real) \<le> 100 \<and> (100::real) \<le> of_int (width defaultViewport) - 1
   \<and> \<not> ((100::real) \<le> 1 \<and> (200::real) \<le> 1)
   \<and> absoluteXY defaultViewport 100 200 = (100, 200)
   \<and> callsOf (click obligingDriver 5 liveService 100 200) = [MouseClick 100 200]"
  using valid_pixel_pair_unchanged[of 100 defaultViewport 200 liveService
      "\<lparr>viewportSize = Some defaultViewport\<rparr>" obligingDriver 5 "''click''"]
  by (simp add: liveService_def defaultViewport_def)

section \<open>Key presses\<close>

lemma pressKey_calls:
  "page s = Some p \<Longrightarrow> callsOf (pressKey d now s key) = [keyAction key]"
  by (simp add: pressKey_def callsOf_def split: option.splits)

lemma keyAction_other:
  "key \<notin> set specialKeys \<Longrightarrow>
   keyAction key = (if length key = 1 then KeyboardType key else KeyboardPress key)"
  by (simp add: keyAction_def specialKeys_def)

text \<open>
  Claim C8. A key press on a session with a page issues exactly one driver call: for a
  key of the table, the action the table gives (history back, history forward, reload, or
  a named key press); for a key outside the table, typed text when its length is 1 and a
  named key press of the key itself when it is longer.
\<close>

theorem key_press_dispatch:
  assumes "page s = Some p"
  shows "callsOf (pressKey d now s ''Back'') = [GoBack]
       \<and> callsOf (pressKey d now s ''Forward'') = [GoForward]
       \<and> callsOf (pressKey d now s ''F5'') = [Reload]
       \<and> callsOf (pressKey d now s ''Enter'') = [KeyboardPress ''Enter'']
       \<and> callsOf (pressKey d now s ''Backspace'') = [KeyboardPress ''Backspace'']
       \<and> callsOf (pressKey d now s ''Tab'') = [KeyboardPress ''Tab'']
       \<and> callsOf (pressKey d now s ''Escape'') = [KeyboardPress ''Escape'']
       \<and> callsOf (pressKey d now s ''ArrowLeft'') = [KeyboardPress ''ArrowLeft'']
       \<and> callsOf (pressKey d now s ''ArrowRight'') = [KeyboardPress ''ArrowRight'']
       \<and> callsOf (pressKey d now s ''ArrowUp'') = [KeyboardPress ''ArrowUp'']
       \<and> callsOf (pressKey d now s ''ArrowDown'') = [KeyboardPress ''ArrowDown'']
       \<and> callsOf (pressKey d now s ''Delete'') = [KeyboardPress ''Delete'']
       \<and> callsOf (pressKey d now s '' '') = [KeyboardPress ''Space'']
       \<and> (key \<notin> set specialKeys \<and> length key = 1 \<longrightarrow>
            callsOf (pressKey d now s key) = [KeyboardType key])
       \<and> (key \<notin> set specialKeys \<and> length key > 1 \<longrightarrow>
            callsOf (pressKey d now s key) = [KeyboardPress key])"
proof -
  have table: "keyAction ''Back'' = GoBack" "keyAction ''Forward'' = GoForward"
    "keyAction ''F5'' = Reload" "keyAction ''Enter'' = KeyboardPress ''Enter''"
    "keyAction ''Backspace'' = KeyboardPress ''Backspace''"
    "keyAction ''Tab'' = KeyboardPress ''Tab''"
    "keyAction ''Escape'' = KeyboardPress ''Escape''"
    "keyAction ''ArrowLeft'' = KeyboardPress ''ArrowLeft''"
    "keyAction ''ArrowRight'' = KeyboardPress ''ArrowRight''"
    "keyAction ''ArrowUp'' = KeyboardPress ''ArrowUp''"
    "keyAction ''ArrowDown'' = KeyboardPress ''ArrowDown''"
    "keyAction ''Delete'' = KeyboardPress ''Delete''"
    "keyAction '' '' = KeyboardPress ''Space''"
    by (simp_all add: keyAction_def)
  show ?thesis
    using keyAction_other[of key]
    by (simp add: pressKey_calls[OF assms] table)
qed

theorem key_press_dispatch_witness:
  "page liveService = Some \<lparr>viewportSize = Some defaultViewport\<rparr>
   \<and> ''a'' \<notin> set specialKeys \<and> length ''a'' = 1
   \<and> ''PageDown'' \<notin> set specialKeys \<and> length ''PageDown'' > 1
   \<and> callsOf (pressKey obligingDriver 5 liveService ''a'') = [KeyboardType ''a'']
   \<and> callsOf (pressKey obligingDriver 5 liveService ''ArrowLeft'') = [KeyboardPress ''ArrowLeft'']
   \<and> callsOf (pressKey obligingDriver 5 liveService ''PageDown'') = [KeyboardPress ''PageDown'']"
  using key_press_dispatch[of liveService "\<lparr>viewportSize = Some defaultViewport\<rparr>"
      obligingDriver 5 "''a''"]
    key_press_dispatch[of liveService "\<lparr>viewportSize = Some defaultViewport\<rparr>"
      obligingDriver 5 "''PageDown''"]
  by (simp add: liveService_def specialKeys_def)

section \<open>Teardown\<close>


lemma closeBrowser_ok:
  "d BrowserClose = None \<Longrightarrow>
   closeBrowser d s cs =
     (Inr (), s\<lparr>browser := None\<rparr>, cs @ (if browser s = None then [] else [BrowserClose]))"
  by (cases s) (simp add: closeBrowser_def split: option.splits)

lemma closeContext_ok:
  "d ContextClose = None \<Longrightarrow> d BrowserClose = None \<Longrightarrow>
   closeContext d s cs =
     (Inr (), s\<lparr>browserContext := None, browser := None\<rparr>,
      cs @ (if browserContext s = None then [] else [ContextClose])
         @ (if browser s = None then [] else [BrowserClose]))"
  by (cases s) (simp add: closeContext_def closeBrowser_ok split: option.splits)

lemma closePage_ok:
  "d PageClose = None \<Longrightarrow> d ContextClose = None \<Longrightarrow> d BrowserClose = None \<Longrightarrow>
   closePage d s cs =
     (Inr (), s\<lparr>page := None, browserContext := None, browser := None\<rparr>,
      cs @ (if page s = None then [] else [PageClose])
         @ (if browserContext s = None then [] else [ContextClose])
         @ (if browser s = None then [] else [BrowserClose]))"
  by (cases s) (simp add: closePage_def closeContext_ok split: option.splits)


lemma close_stages:
  "close d s =
     closePage d (s\<lparr>isStreaming := False, periodicFrameInterval := None, streamingClient := None\<rparr>)
       (if streamingClient s = None then []
        else if d StopScreencast = None then [StopScreencast, Detach] else [StopScreencast])"
  by (cases s; cases "periodicFrameInterval s")
    (simp_all add: close_def closeStreamingClient_def Let_def split: option.splits)

lemma closePage_fails:
  "page s \<noteq> None \<Longrightarrow> d PageClose = Some e \<Longrightarrow> closePage d s cs = (Inl e, s, cs @ [PageClose])"
  by (auto simp: closePage_def)

lemma closeContext_fails:
  "browserContext s \<noteq> None \<Longrightarrow> d ContextClose = Some e \<Longrightarrow>
   closeContext d s cs = (Inl e, s, cs @ [ContextClose])"
  by (auto simp: closeContext_def)

lemma closeBrowser_fails:
  "browser s \<noteq> None \<Longrightarrow> d BrowserClose = Some e \<Longrightarrow>
   closeBrowser d s cs = (Inl e, s, cs @ [BrowserClose])"
  by (auto simp: closeBrowser_def)

lemma closePage_passes:
  "page s = None \<or> d PageClose = None \<Longrightarrow>
   closePage d s cs = closeContext d (s\<lparr>page := None\<rparr>) (cs @ (if page s = None then [] else [PageClose]))"
  by (cases s) (auto simp: closePage_def split: option.splits)

lemma closeContext_passes:
  "browserContext s = None \<or> d ContextClose = None \<Longrightarrow>
   closeContext d s cs =
     closeBrowser d (s\<lparr>browserContext := None\<rparr>)
       (cs @ (if browserContext s = None then [] else [ContextClose]))"
  by (cases s) (auto simp: closeContext_def split: option.splits)


lemma closeBrowser_closed:
  "browser s = None \<Longrightarrow> closeBrowser d s cs = (Inr (), s, cs)"
  by (simp add: closeBrowser_def)

lemma closeBrowser_Inr:
  assumes "resultOf (closeBrowser d s cs) = Inr ()"
  shows "stateOf (closeBrowser d s cs) = s\<lparr>browser := None\<rparr>"
proof (cases "browser s")
  case None
  then show ?thesis by (cases s) (simp add: closeBrowser_def stateOf_def)
next
  case (Some b)
  then show ?thesis using assms
    by (cases "d BrowserClose") (simp_all add: closeBrowser_def stateOf_def resultOf_def)
qed

lemma closeContext_Inr:
  assumes "resultOf (closeContext d s cs) = Inr ()"
  shows "stateOf (closeContext d s cs) = s\<lparr>browserContext := None, browser := None\<rparr>"
proof (cases "browserContext s = None \<or> d ContextClose = None")
  case True
  from closeContext_passes[of s d cs, OF True] assms
    closeBrowser_Inr[of d "s\<lparr>browserContext := None\<rparr>"]
  show ?thesis by simp
next
  case False
  then obtain e where "browserContext s \<noteq> None" "d ContextClose = Some e" by auto
  from closeContext_fails[of s d e cs, OF this] assms show ?thesis by (simp add: resultOf_def)
qed

lemma closePage_Inr:
  assumes "resultOf (closePage d s cs) = Inr ()"
  shows "stateOf (closePage d s cs) = s\<lparr>page := None, browserContext := None, browser := None\<rparr>"
proof (cases "page s = None \<or> d PageClose = None")
  case True
  from closePage_passes[of s d cs, OF True] assms closeContext_Inr[of d "s\<lparr>page := None\<rparr>"]
  show ?thesis by simp
next
  case False
  then obtain e where "page s \<noteq> None" "d PageClose = Some e" by auto
  from closePage_fails[of s d e cs, OF this] assms show ?thesis by (simp add: resultOf_def)
qed

lemma close_Inr:
  assumes "resultOf (close d s) = Inr ()"
  shows "stateOf (close d s) =
     s\<lparr>isStreaming := False, periodicFrameInterval := None, streamingClient := None,
       page := None, browserContext := None, browser := None\<rparr>"
  using assms closePage_Inr[of d "s\<lparr>isStreaming := False, periodicFrameInterval := None, streamingClient := None\<rparr>"]
  by (simp add: close_stages)

lemma close_closed:
  "close d (s\<lparr>isStreaming := False, periodicFrameInterval := None, streamingClient := None,
       page := None, browserContext := None, browser := None\<rparr>)
   = (Inr (), s\<lparr>isStreaming := False, periodicFrameInterval := None, streamingClient := None,
       page := None, browserContext := None, browser := None\<rparr>, [])"
  by (cases s) (simp add: close_stages closePage_def closeContext_def closeBrowser_def)


lemma close_page_rejected:
  assumes "page s \<noteq> None" and "d PageClose = Some e"
  shows "close d s =
     (Inl e, s\<lparr>isStreaming := False, periodicFrameInterval := None, streamingClient := None\<rparr>,
      (if streamingClient s = None then []
       else if d StopScreencast = None then [StopScreencast, Detach] else [StopScreencast])
      @ [PageClose])"
  using assms by (simp add: close_stages closePage_fails)

lemma close_context_rejected:
  assumes "page s = None \<or> d PageClose = None"
    and "browserContext s \<noteq> None" and "d ContextClose = Some e"
  shows "close d s =
     (Inl e,
      s\<lparr>isStreaming := False, periodicFrameInterval := None, streamingClient := None,
        page := None\<rparr>,
      (if streamingClient s = None then []
       else if d StopScreencast = None then [StopScreencast, Detach] else [StopScreencast])
      @ (if page s = None then [] else [PageClose]) @ [ContextClose])"
proof -
  let ?s = "s\<lparr>isStreaming := False, periodicFrameInterval := None, streamingClient := None\<rparr>"
  have p: "page ?s = None \<or> d PageClose = None" using assms(1) by simp
  have c: "browserContext (?s\<lparr>page := None\<rparr>) \<noteq> None" using assms(2) by simp
  show ?thesis
    by (simp add: close_stages closePage_passes[of ?s d, OF p]
        closeContext_fails[of "?s\<lparr>page := None\<rparr>" d e, OF c assms(3)])
qed

lemma close_browser_rejected:
  assumes "page s = None \<or> d PageClose = None"
    and "browserContext s = None \<or> d ContextClose = None"
    and "browser s \<noteq> None" and "d BrowserClose = Some e"
  shows "close d s =
     (Inl e,
      s\<lparr>isStreaming := False, periodicFrameInterval := None, streamingClient := None,
        page := None, browserContext := None\<rparr>,
      (if streamingClient s = None then []
       else if d StopScreencast = None then [StopScreencast, Detach] else [StopScreencast])
      @ (if page s = None then [] else [PageClose])
      @ (if browserContext s = None then [] else [ContextClose]) @ [BrowserClose])"
proof -
  let ?s = "s\<lparr>isStreaming := False, periodicFrameInterval := None, streamingClient := None\<rparr>"
  have p: "page ?s = None \<or> d PageClose = None" using assms(1) by simp
  have c: "browserContext (?s\<lparr>page := None\<rparr>) = None \<or> d ContextClose = None"
    using assms(2) by simp
  have b: "browser (?s\<lparr>page := None, browserContext := None\<rparr>) \<noteq> None"
    using assms(3) by simp
  show ?thesis
    by (simp add: close_stages closePage_passes[of ?s d, OF p]
        closeContext_passes[of "?s\<lparr>page := None\<rparr>" d, OF c]
        closeBrowser_fails[of "?s\<lparr>page := None, browserContext := None\<rparr>" d e, OF b assms(4)])
qed

lemma close_all_resolve:
  assumes "d PageClose = None" and "d ContextClose = None" and "d BrowserClose = None"
  shows "close d s =
     (Inr (),
      s\<lparr>isStreaming := False, periodicFrameInterval := None, streamingClient := None,
        page := None, browserContext := None, browser := None\<rparr>,
      (if streamingClient s = None then []
       else if d StopScreencast = None then [StopScreencast, Detach] else [StopScreencast])
      @ (if page s = None then [] else [PageClose])
      @ (if browserContext s = None then [] else [ContextClose])
      @ (if browser s = None then [] else [BrowserClose]))"
  by (simp add: close_stages closePage_ok[OF assms])

text \<open>
  Claim C6, as the code has it. A rejected stop of the capture is logged and swallowed:
  it skips the detach only, and the page, the context and the browser are still closed;
  a rejected detach is swallowed likewise (the driver's answer to it changes nothing).
  When the closing of the page, the context and the browser resolves, \<^verbatim>\<open>close\<close> returns
  normally with every handle released. A rejected closing of the page, of the context or
  of the browser is logged and thrown on to the caller of \<^verbatim>\<open>close\<close>, and the steps after
  it are not attempted.
\<close>

theorem teardown_error_handling:
  "(d PageClose = None \<and> d ContextClose = None \<and> d BrowserClose = None \<longrightarrow>
      close d s =
        (Inr (),
         s\<lparr>isStreaming := False, periodicFrameInterval := None, streamingClient := None,
           page := None, browserContext := None, browser := None\<rparr>,
         (if streamingClient s = None then []
          else if d StopScreencast = None then [StopScreencast, Detach] else [StopScreencast])
         @ (if page s = None then [] else [PageClose])
         @ (if browserContext s = None then [] else [ContextClose])
         @ (if browser s = None then [] else [BrowserClose])))
   \<and> (page s \<noteq> None \<and> d PageClose = Some e \<longrightarrow>
        close d s =
          (Inl e,
           s\<lparr>isStreaming := False, periodicFrameInterval := None, streamingClient := None\<rparr>,
           (if streamingClient s = None then []
            else if d StopScreencast = None then [StopScreencast, Detach] else [StopScreencast])
           @ [PageClose]))
   \<and> ((page s = None \<or> d PageClose = None) \<and> browserContext s \<noteq> None
        \<and> d ContextClose = Some e \<longrightarrow>
        close d s =
          (Inl e,
           s\<lparr>isStreaming := False, periodicFrameInterval := None, streamingClient := None,
             page := None\<rparr>,
           (if streamingClient s = None then []
            else if d StopScreencast = None then [StopScreencast, Detach] else [StopScreencast])
           @ (if page s = None then [] else [PageClose]) @ [ContextClose]))
   \<and> ((page s = None \<or> d PageClose = None) \<and> (browserContext s = None \<or> d ContextClose = None)
        \<and> browser s \<noteq> None \<and> d BrowserClose = Some e \<longrightarrow>
        close d s =
          (Inl e,
           s\<lparr>isStreaming := False, periodicFrameInterval := None, streamingClient := None,
             page := None, browserContext := None\<rparr>,
           (if streamingClient s = None then []
            else if d StopScreencast = None then [StopScreencast, Detach] else [StopScreencast])
           @ (if page s = None then [] else [PageClose])
           @ (if browserContext s = None then [] else [ContextClose]) @ [BrowserClose]))"
  using close_all_resolve[of d s] close_page_rejected[of s d e]
    close_context_rejected[of s d e] close_browser_rejected[of s d e]
  by blast

theorem teardown_error_handling_witness:
  "resultOf (close stopScreencastFails liveService) = Inr ()
   \<and> callsOf (close stopScreencastFails liveService)
       = [StopScreencast, PageClose, ContextClose, BrowserClose]
   \<and> resultOf (close pageCloseFails liveService) = Inl ''Target closed''
   \<and> resultOf (close contextCloseFails liveService) = Inl ''Context closed''
   \<and> callsOf (close contextCloseFails liveService)
       = [StopScreencast, Detach, PageClose, ContextClose]
   \<and> resultOf (close browserCloseFails liveService) = Inl ''Browser closed''"
  using teardown_error_handling[of stopScreencastFails liveService "[]"]
    teardown_error_handling[of pageCloseFails liveService "''Target closed''"]
    teardown_error_handling[of contextCloseFails liveService "''Context closed''"]
    teardown_error_handling[of browserCloseFails liveService "''Browser closed''"]
  by (simp add: stopScreencastFails_def pageCloseFails_def contextCloseFails_def
      browserCloseFails_def liveService_def resultOf_def callsOf_def)

text \<open>
  Claim C6 as stated fails: when closing the page is rejected, \<^verbatim>\<open>close\<close> throws the error
  to its caller and neither the context nor the browser is closed.
\<close>

theorem teardown_error_counterexample:
  "resultOf (close pageCloseFails liveService) = Inl ''Target closed''
   \<and> callsOf (close pageCloseFails liveService) = [StopScreencast, Detach, PageClose]
   \<and> browserContext (stateOf (close pageCloseFails liveService)) = Some ()
   \<and> browser (stateOf (close pageCloseFails liveService)) = Some ()"
  by (simp add: close_def closeStreamingClient_def closePage_def pageCloseFails_def
      liveService_def resultOf_def callsOf_def stateOf_def)

lemma cleanupSession_absent:
  "activeSessions sid = None \<Longrightarrow> cleanupSession d sid activeSessions = (activeSessions, [])"
  by (simp add: cleanupSession_def)

lemma cleanupSession_closed:
  assumes "activeSessions sid = Some s" and "resultOf (close d s) = Inr ()"
  shows "cleanupSession d sid activeSessions = (activeSessions(sid := None), callsOf (close d s))"
  using assms
  by (cases "close d s") (auto simp: cleanupSession_def resultOf_def callsOf_def split: sum.splits)

text \<open>
  Claim C7, as the code has it, for a second call that starts after the first has
  returned. When the first \<^verbatim>\<open>close\<close> returns normally, a second \<^verbatim>\<open>close\<close> issues no
  driver call, returns normally and leaves the state as it is, whatever the driver would
  answer. \<^verbatim>\<open>cleanupSession\<close> then deletes the registry entry, and a second
  \<^verbatim>\<open>cleanupSession\<close> for the same connection finds no entry, issues no driver call and
  leaves the registry as it is.
\<close>

theorem close_twice_after_success:
  assumes "resultOf (close d s) = Inr ()"
  shows "close d' (stateOf (close d s)) = (Inr (), stateOf (close d s), [])
       \<and> (activeSessions sid = Some s \<longrightarrow>
            cleanupSession d sid activeSessions
              = (activeSessions(sid := None), callsOf (close d s))
            \<and> cleanupSession d' sid (fst (cleanupSession d sid activeSessions))
              = (activeSessions(sid := None), []))"
proof -
  have "close d' (stateOf (close d s)) = (Inr (), stateOf (close d s), [])"
    unfolding close_Inr[OF assms] by (rule close_closed)
  moreover have "activeSessions sid = Some s \<longrightarrow>
            cleanupSession d sid activeSessions
              = (activeSessions(sid := None), callsOf (close d s))
            \<and> cleanupSession d' sid (fst (cleanupSession d sid activeSessions))
              = (activeSessions(sid := None), [])"
    using cleanupSession_closed[of activeSessions sid s d, OF _ assms]
      cleanupSession_absent[of "activeSessions(sid := None)" sid d']
    by simp
  ultimately show ?thesis by (rule conjI)
qed

theorem close_twice_after_success_witness:
  "resultOf (close obligingDriver liveService) = Inr ()
   \<and> callsOf (close obligingDriver liveService)
       = [StopScreencast, Detach, PageClose, ContextClose, BrowserClose]
   \<and> close pageCloseFails (stateOf (close obligingDriver liveService))
       = (Inr (), stateOf (close obligingDriver liveService), [])
   \<and> cleanupSession pageCloseFails ''s1''
        (fst (cleanupSession obligingDriver ''s1'' [''s1'' \<mapsto> liveService]))
       = (Map.empty, [])"
proof -
  have ok: "resultOf (close obligingDriver liveService) = Inr ()"
    by (simp add: close_all_resolve obligingDriver_def resultOf_def)
  have calls: "callsOf (close obligingDriver liveService)
       = [StopScreencast, Detach, PageClose, ContextClose, BrowserClose]"
    by (simp add: close_all_resolve obligingDriver_def callsOf_def liveService_def)
  have entry: "[''s1'' \<mapsto> liveService] ''s1'' = Some liveService"
    by simp
  have gone: "[''s1'' \<mapsto> liveService](''s1'' := None) = Map.empty"
    by simp
  from close_twice_after_success[OF ok, of pageCloseFails "[''s1'' \<mapsto> liveService]" "''s1''"]
    entry
  have again: "close pageCloseFails (stateOf (close obligingDriver liveService))
       = (Inr (), stateOf (close obligingDriver liveService), [])"
    and cleanup: "cleanupSession pageCloseFails ''s1''
        (fst (cleanupSession obligingDriver ''s1'' [''s1'' \<mapsto> liveService]))
       = ([''s1'' \<mapsto> liveService](''s1'' := None), [])"
    by blast+
  from cleanup have "cleanupSession pageCloseFails ''s1''
        (fst (cleanupSession obligingDriver ''s1'' [''s1'' \<mapsto> liveService]))
       = (Map.empty, [])"
    by (simp only: gone)
  with ok calls again show ?thesis by blast
qed

text \<open>
  Claim C7 as stated fails, in two ways. When closing the page is rejected both times,
  the second \<^verbatim>\<open>close\<close> calls the driver again and throws, and after two
  \<^verbatim>\<open>cleanupSession\<close> calls the registry entry is still there. And when a second call
  of \<^verbatim>\<open>close\<close> starts while the first is suspended at an \<^verbatim>\<open>await\<close>, the two calls
  being resumed in turn, every driver call of the teardown is issued twice, although the
  driver rejects nothing.
\<close>

theorem close_twice_counterexample:
  "resultOf (close pageCloseFails (stateOf (close pageCloseFails liveService)))
     = Inl ''Target closed''
   \<and> callsOf (close pageCloseFails liveService) = [StopScreencast, Detach, PageClose]
   \<and> callsOf (close pageCloseFails (stateOf (close pageCloseFails liveService))) = [PageClose]
   \<and> fst (cleanupSession pageCloseFails ''s1''
        (fst (cleanupSession pageCloseFails ''s1'' [''s1'' \<mapsto> liveService]))) ''s1'' \<noteq> None
   \<and> closeOverlapped obligingDriver
        [True, False, True, False, True, False, True, False, True, False, True, False]
        NotStarted NotStarted liveService
       = ((Returned, Returned), stateOf (close obligingDriver liveService),
          [StopScreencast, StopScreencast, Detach, Detach, PageClose, PageClose,
           ContextClose, ContextClose, BrowserClose, BrowserClose])"
proof -
  have rejected: "resultOf (close pageCloseFails (stateOf (close pageCloseFails liveService)))
     = Inl ''Target closed''
   \<and> callsOf (close pageCloseFails liveService) = [StopScreencast, Detach, PageClose]
   \<and> callsOf (close pageCloseFails (stateOf (close pageCloseFails liveService))) = [PageClose]
   \<and> fst (cleanupSession pageCloseFails ''s1''
        (fst (cleanupSession pageCloseFails ''s1'' [''s1'' \<mapsto> liveService]))) ''s1'' \<noteq> None"
    by (simp add: cleanupSession_def close_def closeStreamingClient_def closePage_def
        pageCloseFails_def liveService_def resultOf_def callsOf_def stateOf_def)
  have overlapped: "closeOverlapped obligingDriver
        [True, False, True, False, True, False, True, False, True, False, True, False]
        NotStarted NotStarted liveService
       = ((Returned, Returned), stateOf (close obligingDriver liveService),
          [StopScreencast, StopScreencast, Detach, Detach, PageClose, PageClose,
           ContextClose, ContextClose, BrowserClose, BrowserClose])"
    by (simp add: obligingDriver_def liveService_def resumeAtPage_def resumeAtContext_def
        resumeAtBrowser_def close_all_resolve stateOf_def)
  from rejected overlapped show ?thesis by simp
qed

section \<open>Overlapping calls of close\<close>

lemma closeAlone_Returned:
  "closeAlone n d Returned s = (Returned, s, [])"
  by (induction n) simp_all

lemma closeAlone_Thrown:
  "closeAlone n d (Thrown e) s = (Thrown e, s, [])"
  by (induction n) simp_all

lemma closeAlone_Suc:
  "closeAlone (Suc n) d pt s = carriedOn n d (closeResume d pt s)"
  by (simp add: carriedOn_def)

lemma closeBrowser_calls:
  "closeBrowser d s cs = (case closeBrowser d s [] of (r, s', cs') \<Rightarrow> (r, s', cs @ cs'))"
  by (simp add: closeBrowser_def split: option.splits)

lemma closeContext_calls:
  "closeContext d s cs = (case closeContext d s [] of (r, s', cs') \<Rightarrow> (r, s', cs @ cs'))"
  by (simp add: closeContext_def closeBrowser_calls[of d _ "cs @ _"]
      closeBrowser_calls[of d _ "[ContextClose]"] closeBrowser_calls[of d _ cs]
      split: option.splits prod.splits)

lemma carriedOn_browser:
  "carriedOn (Suc n) d (resumeAtBrowser s) = settled (closeBrowser d s [])"
  by (simp add: carriedOn_def resumeAtBrowser_def closeBrowser_def settled_def
      closeAlone_Returned closeAlone_Thrown split: option.splits)

lemma closePage_calls:
  "closePage d s cs = (case closePage d s [] of (r, s', cs') \<Rightarrow> (r, s', cs @ cs'))"
  by (simp add: closePage_def closeContext_calls[of d _ "cs @ _"]
      closeContext_calls[of d _ "[PageClose]"] closeContext_calls[of d _ cs]
      split: option.splits prod.splits)

lemma settled_calls:
  "settled (case r of (x, s', cs') \<Rightarrow> (x, s', cs @ cs'))
     = (case settled r of (pt, s', cs') \<Rightarrow> (pt, s', cs @ cs'))"
  by (simp add: settled_def split: prod.splits sum.splits)

lemma carriedOn_pending:
  "carriedOn (Suc n) d (pt, s, cs)
     = (case carriedOn n d (closeResume d pt s) of (pt', s', cs') \<Rightarrow> (pt', s', cs @ cs'))"
  by (simp add: carriedOn_def split: prod.splits)

lemma carriedOn_settled [simp]:
  "carriedOn n d (Returned, s, cs) = (Returned, s, cs)"
  "carriedOn n d (Thrown e, s, cs) = (Thrown e, s, cs)"
  by (simp_all add: carriedOn_def closeAlone_Returned closeAlone_Thrown)

lemma carriedOn_context:
  "carriedOn (Suc (Suc n)) d (resumeAtContext s) = settled (closeContext d s [])"
proof (cases "browserContext s")
  case None
  then show ?thesis
    by (simp add: resumeAtContext_def closeContext_def carriedOn_browser)
next
  case (Some c)
  show ?thesis
  proof (cases "d ContextClose")
    case None
    have "carriedOn (Suc (Suc n)) d (resumeAtContext s)
        = (case settled (closeBrowser d (s\<lparr>browserContext := None\<rparr>) []) of
             (pt', s', cs') \<Rightarrow> (pt', s', [ContextClose] @ cs'))"
      using Some None
      by (simp add: resumeAtContext_def carriedOn_pending carriedOn_browser)
    also have "\<dots> = settled (closeContext d s [])"
      using Some None
      by (simp add: closeContext_def closeBrowser_calls[of d _ "[ContextClose]"] settled_def
          split: prod.splits sum.splits)
    finally show ?thesis .
  next
    case (Some e)
    with \<open>browserContext s = Some c\<close> show ?thesis
      by (simp add: resumeAtContext_def carriedOn_pending closeContext_def settled_def)
  qed
qed

lemma carriedOn_page:
  "carriedOn (Suc (Suc (Suc n))) d (resumeAtPage s) = settled (closePage d s [])"
proof (cases "page s")
  case None
  then show ?thesis
    by (simp add: resumeAtPage_def closePage_def carriedOn_context)
next
  case (Some p)
  show ?thesis
  proof (cases "d PageClose")
    case None
    have "carriedOn (Suc (Suc (Suc n))) d (resumeAtPage s)
        = (case settled (closeContext d (s\<lparr>page := None\<rparr>) []) of
             (pt', s', cs') \<Rightarrow> (pt', s', [PageClose] @ cs'))"
      using Some None
      by (simp add: resumeAtPage_def carriedOn_pending carriedOn_context)
    also have "\<dots> = settled (closePage d s [])"
      using Some None
      by (simp add: closePage_def closeContext_calls[of d _ "[PageClose]"] settled_def
          split: prod.splits sum.splits)
    finally show ?thesis .
  next
    case (Some e)
    with \<open>page s = Some p\<close> show ?thesis
      by (simp add: resumeAtPage_def carriedOn_pending closePage_def settled_def)
  qed
qed

text \<open>
  A call of \<^verbatim>\<open>close\<close> resumed six times with nothing in between has run to its end, and
  what it did is what \<open>close\<close> describes.
\<close>

lemma closeAlone_close:
  "closeAlone (Suc (Suc (Suc (Suc (Suc (Suc n)))))) d NotStarted s = settled (close d s)"
proof -
  let ?s = "s\<lparr>isStreaming := False, periodicFrameInterval := None\<rparr>"
  have start: "closeResume d NotStarted s =
      (if streamingClient s \<noteq> None then (StopPending, ?s, [StopScreencast]) else resumeAtPage ?s)"
    by (cases s; cases "periodicFrameInterval s") (simp_all add: Let_def)
  show ?thesis
  proof (cases "streamingClient s")
    case None
    then have "closeAlone (Suc (Suc (Suc (Suc (Suc (Suc n)))))) d NotStarted s
        = settled (closePage d ?s [])"
      by (simp add: closeAlone_Suc start carriedOn_page del: closeAlone.simps closeResume.simps(1))
    also have "closePage d ?s [] = close d s"
    proof -
      have same: "?s\<lparr>streamingClient := None\<rparr> = ?s"
        using None by (cases s) simp
      have "close d s = closePage d (?s\<lparr>streamingClient := None\<rparr>) []"
        using None by (simp add: close_stages)
      then show ?thesis by (simp only: same)
    qed
    finally show ?thesis .
  next
    case (Some c)
    show ?thesis
    proof (cases "d StopScreencast")
      case None
      have "closeAlone (Suc (Suc (Suc (Suc (Suc (Suc n)))))) d NotStarted s
          = (case settled (closePage d (?s\<lparr>streamingClient := None\<rparr>) []) of
               (pt', s', cs') \<Rightarrow> (pt', s', [StopScreencast, Detach] @ cs'))"
        using Some None
        by (simp add: closeAlone_Suc start carriedOn_pending carriedOn_page del: closeAlone.simps closeResume.simps(1)
            split: prod.splits)
      also have "\<dots> = settled (close d s)"
        using Some None
        by (simp add: close_stages closePage_calls[of d _ "[StopScreencast, Detach]"] settled_def
            split: prod.splits sum.splits)
      finally show ?thesis .
    next
      case (Some e)
      have "closeAlone (Suc (Suc (Suc (Suc (Suc (Suc n)))))) d NotStarted s
          = (case settled (closePage d (?s\<lparr>streamingClient := None\<rparr>) []) of
               (pt', s', cs') \<Rightarrow> (pt', s', [StopScreencast] @ cs'))"
        using \<open>streamingClient s = Some c\<close> Some
        by (simp add: closeAlone_Suc start carriedOn_pending carriedOn_page del: closeAlone.simps closeResume.simps(1)
            split: prod.splits)
      also have "\<dots> = settled (close d s)"
        using \<open>streamingClient s = Some c\<close> Some
        by (simp add: close_stages closePage_calls[of d _ "[StopScreencast]"] settled_def
            split: prod.splits sum.splits)
      finally show ?thesis .
    qed
  qed
qed

section \<open>Chat commands\<close>

lemma handleChatMessage_no_match:
  "navigateMatch text = None \<Longrightarrow>
   handleChatMessage d now svc text ws
     = (svc, wsSend (ChatOut (''Received your message: '' @ [CHR 0x22] @ text @ [CHR 0x22])) ws, [])"
  by (simp add: handleChatMessage_def)

lemma handleChatMessage_match_calls:
  "navigateMatch text = Some target \<Longrightarrow> page svc \<noteq> None \<Longrightarrow>
   snd (snd (handleChatMessage d now svc text ws))
     = [Goto (if startsWith ''http'' target then target else ''https://'' @ target)]"
  by (auto simp: handleChatMessage_def navigate_def Let_def split: option.splits)

lemma chat_go_to_example:
  "handleChatMessage obligingDriver 5 liveService ''go to example.com'' newSocket
     = (liveService\<lparr>lastActivity := 5\<rparr>,
        newSocket\<lparr>sent := [ChatOut ''Navigating to https://example.com...'']\<rparr>,
        [Goto ''https://example.com''])"
  by (simp add: handleChatMessage_def navigateMatch_def matchKeyword_def toLowerCase_def
      lineTerminator_def startsWith_def navigate_def liveService_def obligingDriver_def
      wsSend_def newSocket_def)

text \<open>
  Claim C9 at the chat text \<^verbatim>\<open>go to httpbin.org\<close>. The text matches the pattern with
  the target \<^verbatim>\<open>httpbin.org\<close>, which has no scheme; the target begins with the letters
  \<^verbatim>\<open>http\<close>, so the handler leaves it as it is and asks the driver to go to
  \<^verbatim>\<open>httpbin.org\<close>, not to \<^verbatim>\<open>https://httpbin.org\<close>.
\<close>

theorem chat_navigation_without_scheme:
  "navigateMatch ''go to httpbin.org'' = Some ''httpbin.org''
   \<and> handleChatMessage obligingDriver 5 liveService ''go to httpbin.org'' newSocket
       = (liveService\<lparr>lastActivity := 5\<rparr>,
          newSocket\<lparr>sent := [ChatOut ''Navigating to httpbin.org...'']\<rparr>,
          [Goto ''httpbin.org''])"
  by (simp add: handleChatMessage_def navigateMatch_def matchKeyword_def toLowerCase_def
      lineTerminator_def startsWith_def navigate_def liveService_def obligingDriver_def
      wsSend_def newSocket_def)

section \<open>Failed session creation\<close>

lemma initialize_launch_rejected:
  "d Launch = Some e \<Longrightarrow> resultOf (initialize d now sid s0) = Inl e"
  by (simp add: initialize_def resultOf_def)

lemma initialize_goto_rejected:
  "d Launch = None \<Longrightarrow> d NewContext = None \<Longrightarrow> d NewPage = None \<Longrightarrow>
   d (Goto ''https://www.excalidraw.com'') = Some e \<Longrightarrow>
   resultOf (initialize d now sid s0) = Inl e"
  by (simp add: initialize_def resultOf_def)

lemma onConnection_failed:
  assumes "resultOf (initialize d now sid newService) = Inl e"
  shows "onConnection d now sid activeSessions ws =
     (activeSessions,
      ws\<lparr>wsSessionId := sid,
         sent := sent ws @
           [ChatOut ''Connected to browser automation server. Initializing browser...'',
            ChatOut (''Error initializing browser: '' @ e)]\<rparr>,
      callsOf (initialize d now sid newService))"
  using assms
  by (cases "initialize d now sid newService")
    (auto simp: onConnection_def resultOf_def callsOf_def wsSend_def split: sum.splits)

lemma onMessage_no_session:
  "activeSessions sid = None \<Longrightarrow>
   onMessage d now sid activeSessions ws (Inr dat)
     = (activeSessions, wsSend (ChatOut ''Session not found or expired. Please reconnect.'') ws, [])"
  by (simp add: onMessage_def)

text \<open>
  Claim C10. When \<^verbatim>\<open>initialize\<close> throws for a connection with a fresh session
  identifier, the registry is left as it is, the connection is sent the welcome message
  followed by exactly one diagnostic message carrying the error, and its ready state is
  not touched. Every parsed message handled afterwards on that connection is answered by
  the "session not found" message alone, with the registry unchanged and no driver call.
\<close>

theorem failed_session_creation:
  assumes "resultOf (initialize d now sid newService) = Inl e"
    and "activeSessions sid = None"
  shows "fst (onConnection d now sid activeSessions ws) = activeSessions
       \<and> sent (fst (snd (onConnection d now sid activeSessions ws)))
           = sent ws @
             [ChatOut ''Connected to browser automation server. Initializing browser...'',
              ChatOut (''Error initializing browser: '' @ e)]
       \<and> readyState (fst (snd (onConnection d now sid activeSessions ws))) = readyState ws
       \<and> onMessage d' now' sid (fst (onConnection d now sid activeSessions ws)) ws' (Inr dat)
           = (activeSessions,
              wsSend (ChatOut ''Session not found or expired. Please reconnect.'') ws', [])"
  using onMessage_no_session[of activeSessions sid d' now' ws' dat, OF assms(2)]
  by (simp add: onConnection_failed[OF assms(1)])

theorem failed_session_creation_witness:
  "resultOf (initialize launchFails 1000 ''s1'' newService) = Inl ''Failed to launch browser''
   \<and> fst (onConnection launchFails 1000 ''s1'' Map.empty newSocket) = Map.empty
   \<and> sent (fst (snd (onConnection launchFails 1000 ''s1'' Map.empty newSocket)))
       = [ChatOut ''Connected to browser automation server. Initializing browser...'',
          ChatOut ''Error initializing browser: Failed to launch browser'']
   \<and> readyState (fst (snd (onConnection launchFails 1000 ''s1'' Map.empty newSocket))) = OPEN
   \<and> sent (fst (snd (onMessage obligingDriver 2000 ''s1''
          (fst (onConnection launchFails 1000 ''s1'' Map.empty newSocket))
          (fst (snd (onConnection launchFails 1000 ''s1'' Map.empty newSocket)))
          (Inr clickMessage))))
       = [ChatOut ''Connected to browser automation server. Initializing browser...'',
          ChatOut ''Error initializing browser: Failed to launch browser'',
          ChatOut ''Session not found or expired. Please reconnect.'']
   \<and> resultOf (initialize gotoFails 1000 ''s1'' newService) = Inl ''net::ERR_NAME_NOT_RESOLVED''
   \<and> fst (onConnection gotoFails 1000 ''s1'' Map.empty newSocket) = Map.empty"
proof -
  have failed: "resultOf (initialize launchFails 1000 ''s1'' newService)
      = Inl ''Failed to launch browser''"
    by (simp add: initialize_launch_rejected launchFails_def)
  have failed': "resultOf (initialize gotoFails 1000 ''s1'' newService)
      = Inl ''net::ERR_NAME_NOT_RESOLVED''"
    by (simp add: initialize_goto_rejected gotoFails_def)
  have fresh: "(Map.empty :: registry) ''s1'' = None"
    by simp
  let ?ws = "fst (snd (onConnection launchFails 1000 ''s1'' Map.empty newSocket))"
  from failed_session_creation[OF failed fresh, of newSocket obligingDriver 2000 ?ws clickMessage]
  have registry: "fst (onConnection launchFails 1000 ''s1'' Map.empty newSocket) = Map.empty"
    and messages: "sent ?ws = sent newSocket @
        [ChatOut ''Connected to browser automation server. Initializing browser...'',
         ChatOut (''Error initializing browser: '' @ ''Failed to launch browser'')]"
    and state: "readyState ?ws = readyState newSocket"
    and answer: "onMessage obligingDriver 2000 ''s1''
          (fst (onConnection launchFails 1000 ''s1'' Map.empty newSocket)) ?ws (Inr clickMessage)
        = (Map.empty, wsSend (ChatOut ''Session not found or expired. Please reconnect.'') ?ws, [])"
    by blast+
  from failed_session_creation[OF failed' fresh, of newSocket obligingDriver 2000 ?ws clickMessage]
  have registry': "fst (onConnection gotoFails 1000 ''s1'' Map.empty newSocket) = Map.empty"
    by blast
  have messages': "sent ?ws =
        [ChatOut ''Connected to browser automation server. Initializing browser...'',
         ChatOut ''Error initializing browser: Failed to launch browser'']"
    using messages by (simp add: newSocket_def)
  have state': "readyState ?ws = OPEN"
    using state by (simp add: newSocket_def)
  have answer': "sent (fst (snd (onMessage obligingDriver 2000 ''s1''
          (fst (onConnection launchFails 1000 ''s1'' Map.empty newSocket)) ?ws (Inr clickMessage))))
       = [ChatOut ''Connected to browser automation server. Initializing browser...'',
          ChatOut ''Error initializing browser: Failed to launch browser'',
          ChatOut ''Session not found or expired. Please reconnect.'']"
    unfolding answer by (simp add: wsSend_def messages')
  from failed registry messages' state' answer' failed' registry' show ?thesis by blast
qed

section \<open>Frame forwarding over a run of callbacks\<close>

lemma frameTimes_append:
  "frameTimes (ms @ ms') = frameTimes ms @ frameTimes ms'"
  by (induction ms rule: frameTimes.induct) simp_all

lemma runStream_append:
  "runStream d (es @ es') s =
     (case runStream d es s of
        (s', out) \<Rightarrow> (case runStream d es' s' of (s'', out') \<Rightarrow> (s'', out @ out')))"
  by (induction es arbitrary: s) (simp_all split: prod.splits)

lemma forwarded_snoc:
  "forwarded d (es @ [e]) s
     = forwarded d es s @ snd (streamStep d e (fst (runStream d es s)))"
  by (simp add: forwarded_def runStream_append split: prod.splits)

text \<open>
  One callback on a live stream with the connection found and the capture resolving:
  either nothing is forwarded and the recorded frame time stays, or one frame is forwarded
  with the callback's clock reading, which becomes the recorded frame time.
\<close>

lemma streamStep_live:
  assumes "isStreaming s" and "page s \<noteq> None" and "streamingClient s \<noteq> None"
    and "d CaptureScreenshot = None" and "connectionFound e"
  shows "isStreaming (fst (streamStep d e s)) \<and> page (fst (streamStep d e s)) \<noteq> None
       \<and> streamingClient (fst (streamStep d e s)) \<noteq> None
       \<and> ((lastFrameTimestamp (fst (streamStep d e s)) = lastFrameTimestamp s
             \<and> snd (streamStep d e s) = [])
          \<or> (lastFrameTimestamp (fst (streamStep d e s)) = eventTime e
             \<and> frameTimes (snd (streamStep d e s)) = [eventTime e]))"
  using assms
  by (cases e) (simp_all add: screencastFrame_def periodicFrame_def Let_def)

lemma runStream_live:
  assumes "isStreaming s" and "page s \<noteq> None" and "streamingClient s \<noteq> None"
    and "d CaptureScreenshot = None" and "list_all connectionFound es"
    and "sorted (map eventTime es)"
    and "\<forall>e \<in> set es. 0 < eventTime e \<and> lastFrameTimestamp s \<le> eventTime e"
  shows "isStreaming (fst (runStream d es s)) \<and> page (fst (runStream d es s)) \<noteq> None
       \<and> streamingClient (fst (runStream d es s)) \<noteq> None
       \<and> lastFrameTimestamp s \<le> lastFrameTimestamp (fst (runStream d es s))
       \<and> (lastFrameTimestamp (fst (runStream d es s)) = lastFrameTimestamp s
          \<or> lastFrameTimestamp (fst (runStream d es s)) \<in> set (frameTimes (snd (runStream d es s))))
       \<and> (\<forall>t \<in> set (frameTimes (snd (runStream d es s))).
             0 < t \<and> t \<le> lastFrameTimestamp (fst (runStream d es s)))
       \<and> (lastFrameTimestamp (fst (runStream d es s)) = lastFrameTimestamp s
          \<or> lastFrameTimestamp (fst (runStream d es s)) \<in> eventTime ` set es)"
  using assms
proof (induction es arbitrary: s)
  case Nil
  then show ?case by simp
next
  case (Cons e es)
  obtain s1 out1 where step: "streamStep d e s = (s1, out1)"
    by (cases "streamStep d e s")
  obtain s2 out2 where rest: "runStream d es s1 = (s2, out2)"
    by (cases "runStream d es s1")
  have found: "connectionFound e" and founds: "list_all connectionFound es"
    using Cons.prems(5) by simp_all
  from streamStep_live[of s d e, OF Cons.prems(1,2,3,4) found] step
  have live1: "isStreaming s1" "page s1 \<noteq> None" "streamingClient s1 \<noteq> None"
    and one: "(lastFrameTimestamp s1 = lastFrameTimestamp s \<and> out1 = [])
          \<or> (lastFrameTimestamp s1 = eventTime e \<and> frameTimes out1 = [eventTime e])"
    by simp_all
  have e_pos: "0 < eventTime e" and e_late: "lastFrameTimestamp s \<le> eventTime e"
    using Cons.prems(7) by simp_all
  have order: "sorted (map eventTime es)" and after: "\<forall>x \<in> set es. eventTime e \<le> eventTime x"
    using Cons.prems(6) by simp_all
  have later: "\<forall>x \<in> set es. 0 < eventTime x \<and> lastFrameTimestamp s1 \<le> eventTime x"
    using one Cons.prems(7) after by auto
  from Cons.IH[OF live1 Cons.prems(4) founds order later] rest
  have ih: "isStreaming s2" "page s2 \<noteq> None" "streamingClient s2 \<noteq> None"
    "lastFrameTimestamp s1 \<le> lastFrameTimestamp s2"
    "lastFrameTimestamp s2 = lastFrameTimestamp s1 \<or> lastFrameTimestamp s2 \<in> set (frameTimes out2)"
    "\<forall>t \<in> set (frameTimes out2). 0 < t \<and> t \<le> lastFrameTimestamp s2"
    "lastFrameTimestamp s2 = lastFrameTimestamp s1 \<or> lastFrameTimestamp s2 \<in> eventTime ` set es"
    by simp_all
  have run: "runStream d (e # es) s = (s2, out1 @ out2)"
    using step rest by simp
  have a: "lastFrameTimestamp s \<le> lastFrameTimestamp s2"
    using one e_late ih(4) by auto
  have b: "lastFrameTimestamp s2 = lastFrameTimestamp s
          \<or> lastFrameTimestamp s2 \<in> set (frameTimes (out1 @ out2))"
    using one ih(5) by (auto simp: frameTimes_append)
  have c: "\<forall>t \<in> set (frameTimes (out1 @ out2)). 0 < t \<and> t \<le> lastFrameTimestamp s2"
    using one ih(4,6) e_pos by (auto simp: frameTimes_append)
  have d: "lastFrameTimestamp s2 = lastFrameTimestamp s
          \<or> lastFrameTimestamp s2 \<in> eventTime ` set (e # es)"
    using one ih(7) by auto
  show ?case
    unfolding run using ih(1,2,3) a b c d by simp
qed

text \<open>
  The timer callback run without interruption is its two parts one after the other.
\<close>

lemma periodicFrame_parts:
  "periodicFrame d now wsOpen s =
     (if heartbeatDue now s then
        (fst (heartbeatSettled d now wsOpen s), snd (heartbeatSettled d now wsOpen s),
         [CaptureScreenshot])
      else (s, [], []))"
  by (auto simp: periodicFrame_def heartbeatDue_def heartbeatSettled_def split: option.splits)

lemma periodicFrame_forwards:
  assumes "isStreaming s" and "page s \<noteq> None" and "streamingClient s \<noteq> None"
    and "d CaptureScreenshot = None"
  shows "snd (streamStep d (PeriodicTick T True) s) =
     (if lastFrameTimestamp s = 0 \<or> T - lastFrameTimestamp s \<ge> FRAME_INTERVAL
      then [FrameOut Heartbeat T] else [])"
  using assms by (auto simp: periodicFrame_def)

text \<open>
  Claim C5, as the code has it, for callbacks that run one after the other in clock order
  on a live stream whose connection is found and whose capture resolves. At a heartbeat
  tick with clock reading \<open>T\<close>, a frame has been forwarded with a clock reading in
  \<open>(T - FRAME_INTERVAL, T]\<close> once the tick is over; the tick forwards a heartbeat frame
  exactly when no frame, event-driven or heartbeat, was forwarded before it with a clock
  reading in that interval, and forwards nothing otherwise.
\<close>

theorem heartbeat_at_tick:
  assumes "isStreaming s" and "page s \<noteq> None" and "streamingClient s \<noteq> None"
    and "lastFrameTimestamp s = 0"
    and "d CaptureScreenshot = None"
    and "list_all connectionFound es"
    and "\<forall>e \<in> set es. 0 < eventTime e"
    and "sorted (map eventTime es @ [T])" and "0 < T"
  shows "(\<exists>t \<in> set (frameTimes (forwarded d (es @ [PeriodicTick T True]) s)).
            T - FRAME_INTERVAL < t \<and> t \<le> T)
       \<and> (forwarded d (es @ [PeriodicTick T True]) s
            = forwarded d es s @ [FrameOut Heartbeat T]
          \<longleftrightarrow> \<not> (\<exists>t \<in> set (frameTimes (forwarded d es s)). T - FRAME_INTERVAL < t))
       \<and> (forwarded d (es @ [PeriodicTick T True]) s = forwarded d es s
          \<longleftrightarrow> (\<exists>t \<in> set (frameTimes (forwarded d es s)). T - FRAME_INTERVAL < t))"
proof -
  let ?s' = "fst (runStream d es s)"
  let ?out = "forwarded d es s"
  let ?L = "lastFrameTimestamp ?s'"
  have order: "sorted (map eventTime es)" and before: "\<forall>e \<in> set es. eventTime e \<le> T"
    using assms(8) by (auto simp: sorted_append)
  have late: "\<forall>e \<in> set es. 0 < eventTime e \<and> lastFrameTimestamp s \<le> eventTime e"
    using assms(4,7) by auto
  from runStream_live[of s d es, OF assms(1,2,3,5,6) order late]
  have live: "isStreaming ?s'" "page ?s' \<noteq> None" "streamingClient ?s' \<noteq> None"
    and recorded: "?L = 0 \<or> ?L \<in> set (frameTimes ?out)"
    and bound: "\<forall>t \<in> set (frameTimes ?out). 0 < t \<and> t \<le> ?L"
    and source: "?L = 0 \<or> ?L \<in> eventTime ` set es"
    by (simp_all add: assms(4) forwarded_def)
  have L_le: "?L \<le> T"
    using source before assms(9) by auto
  have tick: "forwarded d (es @ [PeriodicTick T True]) s =
      ?out @ (if ?L = 0 \<or> T - ?L \<ge> FRAME_INTERVAL then [FrameOut Heartbeat T] else [])"
    by (simp only: forwarded_snoc periodicFrame_forwards[of ?s' d T, OF live assms(5)])
  have interval: "0 < FRAME_INTERVAL"
    by (simp add: FRAME_INTERVAL_def)
  show ?thesis
  proof (cases "?L = 0 \<or> T - ?L \<ge> FRAME_INTERVAL")
    case True
    then have none: "\<not> (\<exists>t \<in> set (frameTimes ?out). T - FRAME_INTERVAL < t)"
      using bound by force
    have "T \<in> set (frameTimes (forwarded d (es @ [PeriodicTick T True]) s))"
      using True tick by (simp add: frameTimes_append)
    then have "\<exists>t \<in> set (frameTimes (forwarded d (es @ [PeriodicTick T True]) s)).
            T - FRAME_INTERVAL < t \<and> t \<le> T"
      using interval by force
    then show ?thesis using True tick none by simp
  next
    case False
    then have recent: "?L \<in> set (frameTimes ?out)" "T - FRAME_INTERVAL < ?L"
      using recorded by auto
    then have some: "\<exists>t \<in> set (frameTimes ?out). T - FRAME_INTERVAL < t"
      by blast
    have "\<exists>t \<in> set (frameTimes (forwarded d (es @ [PeriodicTick T True]) s)).
            T - FRAME_INTERVAL < t \<and> t \<le> T"
      using False tick recent L_le by auto
    then show ?thesis using False tick some by simp
  qed
qed

theorem heartbeat_at_tick_witness:
  "forwarded obligingDriver
     ([ScreencastFrame 2000 True, PeriodicTick 2500 True, ScreencastFrame 2999 True]
      @ [PeriodicTick 3500 True]) liveService
     = [FrameOut EventDriven 2000, FrameOut EventDriven 2999]
   \<and> forwarded obligingDriver ([ScreencastFrame 2000 True] @ [PeriodicTick 3500 True]) liveService
     = [FrameOut EventDriven 2000, FrameOut Heartbeat 3500]"
proof -
  have live: "isStreaming liveService" "page liveService \<noteq> None"
    "streamingClient liveService \<noteq> None" "lastFrameTimestamp liveService = 0"
    by (simp_all add: liveService_def)
  have capture: "obligingDriver CaptureScreenshot = None"
    by (simp add: obligingDriver_def)
  have first: "forwarded obligingDriver
      [ScreencastFrame 2000 True, PeriodicTick 2500 True, ScreencastFrame 2999 True] liveService
      = [FrameOut EventDriven 2000, FrameOut EventDriven 2999]"
    by (simp add: forwarded_def screencastFrame_def periodicFrame_def liveService_def
        FRAME_INTERVAL_def obligingDriver_def)
  have second: "forwarded obligingDriver [ScreencastFrame 2000 True] liveService
      = [FrameOut EventDriven 2000]"
    by (simp add: forwarded_def screencastFrame_def liveService_def)
  have "forwarded obligingDriver
     ([ScreencastFrame 2000 True, PeriodicTick 2500 True, ScreencastFrame 2999 True]
      @ [PeriodicTick 3500 True]) liveService
     = [FrameOut EventDriven 2000, FrameOut EventDriven 2999]"
    using heartbeat_at_tick[of liveService obligingDriver
        "[ScreencastFrame 2000 True, PeriodicTick 2500 True, ScreencastFrame 2999 True]" 3500,
        OF live capture]
    by (simp add: first FRAME_INTERVAL_def)
  moreover have "forwarded obligingDriver ([ScreencastFrame 2000 True] @ [PeriodicTick 3500 True])
      liveService = [FrameOut EventDriven 2000, FrameOut Heartbeat 3500]"
    using heartbeat_at_tick[of liveService obligingDriver "[ScreencastFrame 2000 True]" 3500,
        OF live capture]
    by (simp add: second FRAME_INTERVAL_def)
  ultimately show ?thesis by (rule conjI)
qed

text \<open>
  Claim C5 as stated fails, in two ways. With the timer ticking every 1000 ms at 2500,
  3500 and 4500 and the page changing at 2000 and 2999, the frames forwarded are those of
  2000, 2999 and 4500: the first frame is forwarded at 2000, and no frame is forwarded in
  the interval \<open>[3000, 4000)\<close>. And when the timer ticks at 2500 before any frame, the
  capture is started; if the page changes at 2600, while the capture is awaited, the
  event-driven frame is forwarded first and the heartbeat frame is forwarded after it
  all the same.
\<close>

theorem heartbeat_interval_counterexample:
  "forwarded obligingDriver
     [ScreencastFrame 2000 True, PeriodicTick 2500 True, ScreencastFrame 2999 True,
      PeriodicTick 3500 True, PeriodicTick 4500 True] liveService
     = [FrameOut EventDriven 2000, FrameOut EventDriven 2999, FrameOut Heartbeat 4500]
   \<and> framesBetween 3000 4000
       (forwarded obligingDriver
          [ScreencastFrame 2000 True, PeriodicTick 2500 True, ScreencastFrame 2999 True,
           PeriodicTick 3500 True, PeriodicTick 4500 True] liveService) = []
   \<and> heartbeatDue 2500 liveService
   \<and> fst (snd (screencastFrame 2600 True liveService)) = [FrameOut EventDriven 2600]
   \<and> snd (heartbeatSettled obligingDriver 2500 True (fst (screencastFrame 2600 True liveService)))
       = [FrameOut Heartbeat 2500]"
  by (simp add: forwarded_def screencastFrame_def periodicFrame_def liveService_def
      FRAME_INTERVAL_def obligingDriver_def framesBetween_def heartbeatDue_def
      heartbeatSettled_def)

end
